theory Spec2Isabelle
  imports Complex_Main
begin

section \<open>JavaScript strings and numbers\<close>

text \<open>
  A string is a list of code units below 256, read as Latin-1 (U+0000 to U+00FF); text
  with other characters is outside the model. On these, \<open>toLowerCase\<close> maps A to Z
  and the accented capitals U+00C0 to U+00DE (but not the multiplication sign, U+00D7)
  to the letter 32 places on, and \<open>trim\<close> strips tab, line feed, vertical tab, form
  feed, carriage return, space and the no-break space U+00A0.
\<close>

definition toLowerCase_char :: "char \<Rightarrow> char" where
  "toLowerCase_char c =
     (let n = (of_char c :: nat)
      in if (65 \<le> n \<and> n \<le> 90) \<or> (192 \<le> n \<and> n \<le> 222 \<and> n \<noteq> 215) then char_of (n + 32)
         else c)"

definition toLowerCase :: "string \<Rightarrow> string" where
  "toLowerCase s = map toLowerCase_char s"

definition isWhiteSpace :: "char \<Rightarrow> bool" where
  "isWhiteSpace c = (let n = (of_char c :: nat) in (9 \<le> n \<and> n \<le> 13) \<or> n = 32 \<or> n = 160)"

definition trimStart :: "string \<Rightarrow> string" where
  "trimStart s = dropWhile isWhiteSpace s"

definition trimEnd :: "string \<Rightarrow> string" where
  "trimEnd s = rev (dropWhile isWhiteSpace (rev s))"

definition trim :: "string \<Rightarrow> string" where
  "trim s = trimEnd (trimStart s)"

fun startsWith :: "string \<Rightarrow> string \<Rightarrow> bool" where
  "startsWith s [] = True"
| "startsWith [] (c # t) = False"
| "startsWith (a # s) (c # t) = (a = c \<and> startsWith s t)"

text \<open>\<open>s.includes(t)\<close>: \<open>t\<close> occurs in \<open>s\<close> as a contiguous run.\<close>

fun str_includes :: "string \<Rightarrow> string \<Rightarrow> bool" where
  "str_includes [] t = (t = [])"
| "str_includes (a # s) t = (startsWith (a # s) t \<or> str_includes s t)"

text \<open>
  A JavaScript number that holds a price: a finite double (its value, a rational), one
  of the two infinities, or NaN. Negative zero is not distinguished from zero.
\<close>

datatype number = Num rat | PosInfinity | NegInfinity | NaN

text \<open>
  Rounding to the nearest double (IEEE 754 binary64, ties to even). \<open>ilog2 a\<close> is the
  exponent of a positive \<open>a\<close>: the \<open>e\<close> with \<open>2^e \<le> a < 2^(e+1)\<close>. A double is a
  multiple of \<open>2^(e-52)\<close>, and of \<open>2^(-1074)\<close> below the normal range; \<open>nearest\<close>
  rounds to such a multiple, and \<open>double_of\<close> gives an infinity when the rounded
  value has an exponent above 1023, that is from \<open>2^1024\<close> on.
\<close>

definition round_half_even :: "rat \<Rightarrow> int" where
  "round_half_even y =
     (let f = \<lfloor>y\<rfloor>; d = y - of_int f
      in if d < 1 / 2 then f else if 1 / 2 < d then f + 1 else if even f then f else f + 1)"

function bit_length :: "int \<Rightarrow> int" where
  "bit_length n = (if n \<le> 0 then 0 else 1 + bit_length (n div 2))"
  by auto
termination
  by (relation "measure nat") auto

declare bit_length.simps [simp del]

definition ilog2 :: "rat \<Rightarrow> int" where
  "ilog2 a =
     (let (n, d) = quotient_of a;
          k = bit_length n - bit_length d
      in if 2 powi k \<le> a then k else k - 1)"

definition nearest :: "rat \<Rightarrow> rat" where
  "nearest x =
     (if x = 0 then 0
      else (let a = \<bar>x\<bar>;
                q = max (ilog2 a) (- 1022) - 52;
                v = of_int (round_half_even (a / 2 powi q)) * 2 powi q
            in if 0 < x then v else - v))"

definition double_of :: "rat \<Rightarrow> number" where
  "double_of x =
     (let v = nearest x
      in if v = 0 then Num 0
         else if 1024 \<le> ilog2 \<bar>v\<bar> then (if 0 < v then PosInfinity else NegInfinity)
         else Num v)"

text \<open>
  \<open>x / r\<close> and \<open>x * r\<close> for a finite \<open>r\<close>, as IEEE 754 defines them: the exact
  quotient or product, rounded to the nearest double.
\<close>

fun js_div :: "number \<Rightarrow> rat \<Rightarrow> number" where
  "js_div (Num a) r =
     (if r \<noteq> 0 then double_of (a / r)
      else if a = 0 then NaN else if 0 < a then PosInfinity else NegInfinity)"
| "js_div PosInfinity r = (if 0 \<le> r then PosInfinity else NegInfinity)"
| "js_div NegInfinity r = (if 0 \<le> r then NegInfinity else PosInfinity)"
| "js_div NaN r = NaN"

fun js_mul :: "number \<Rightarrow> rat \<Rightarrow> number" where
  "js_mul (Num a) r = double_of (a * r)"
| "js_mul PosInfinity r = (if r = 0 then NaN else if 0 < r then PosInfinity else NegInfinity)"
| "js_mul NegInfinity r = (if r = 0 then NaN else if 0 < r then NegInfinity else PosInfinity)"
| "js_mul NaN r = NaN"

text \<open>\<open>x > 0\<close>, \<open>x >= 0\<close> and the truthiness of a number (\<open>x || d\<close> takes \<open>d\<close> for 0 and NaN).\<close>

fun js_pos :: "number \<Rightarrow> bool" where
  "js_pos (Num a) = (0 < a)"
| "js_pos PosInfinity = True"
| "js_pos NegInfinity = False"
| "js_pos NaN = False"

fun js_nonneg :: "number \<Rightarrow> bool" where
  "js_nonneg (Num a) = (0 \<le> a)"
| "js_nonneg PosInfinity = True"
| "js_nonneg NegInfinity = False"
| "js_nonneg NaN = False"

fun truthy :: "number \<Rightarrow> bool" where
  "truthy (Num a) = (a \<noteq> 0)"
| "truthy PosInfinity = True"
| "truthy NegInfinity = True"
| "truthy NaN = False"

section \<open>The data model (types.ts)\<close>

text \<open>
  Identifiers are keys generated by the store (non-empty strings in the source, hence
  truthy); the model numbers them. Quantities are unit counts: integers, taken to be of
  a magnitude (below \<open>2^53\<close>) at which the additions and subtractions of the source
  are exact. A time stamp is the ISO string of \<open>new Date()\<close>.
\<close>

type_synonym ident = nat
type_synonym timestamp = string

record product =
  p_id :: ident
  p_name :: string
  p_quantity :: int
  p_minStock :: int
  p_price :: number
  p_category :: string
  p_lastUpdated :: timestamp
  p_supplierId :: "ident option"

record supplier =
  s_id :: ident
  s_name :: string
  s_rif :: string
  s_firstSeen :: timestamp

record invoice_item =
  productName :: string
  quantity :: int
  price :: number
  confidence :: "rat option"
  originalQuantity :: "int option"
  detectedPackSize :: "int option"
  category :: "string option"

datatype log_type = IN | OUT | ADJUSTMENT | IMPORT

text \<open>
  The description of a log entry is a template literal; the model keeps the template
  and the values interpolated into it.
\<close>

datatype description =
    Factura string string
  | Nuevo string string
  | SalidaManual string
  | ImportacionCSV nat nat

record activity_log =
  l_type :: log_type
  l_description :: description
  l_amount :: int
  l_date :: timestamp

section \<open>The store\<close>

text \<open>
  The three tables behind the Supabase client, the key the store gives the next inserted
  row, and whether the store answers: when it does not, every query returns
  \<open>{data: null, error}\<close>. No query of the source asks for an order, so the order in
  which a select returns its rows is the store's own and may change with every write:
  \<open>row_rank st w\<close> ranks the rows after \<open>w\<close> writes, a select returns its rows by
  rank, and nothing is assumed of the ranking. An operation takes the store and returns
  the store it leaves behind; the reading of the clock (\<open>new Date()\<close>) is an argument
  of the operation.
\<close>

record store =
  products :: "product list"
  suppliers :: "supplier list"
  activity_logs :: "activity_log list"
  next_id :: ident
  online :: bool
  writes :: nat
  row_rank :: "nat \<Rightarrow> product \<Rightarrow> nat"

datatype error = ConnectionError | StoreError

text \<open>\<open>.single()\<close>: the row when the query gives exactly one, otherwise no data.\<close>

fun single :: "'a list option \<Rightarrow> 'a option" where
  "single (Some [x]) = Some x"
| "single _ = None"

text \<open>
  A select on the products: the rows that pass the filter, in the store's order, or no
  data when the store does not answer. A select that ends in \<open>.single()\<close> does not
  depend on the order, and \<open>select_where\<close> leaves it out.
\<close>

definition select_products :: "store \<Rightarrow> (product \<Rightarrow> bool) \<Rightarrow> product list option" where
  "select_products st P =
     (if online st then Some (sort_key (row_rank st (writes st)) (filter P (products st)))
      else None)"

definition select_where :: "bool \<Rightarrow> ('a \<Rightarrow> bool) \<Rightarrow> 'a list \<Rightarrow> 'a list option" where
  "select_where up P rows = (if up then Some (filter P rows) else None)"

definition getAll :: "store \<Rightarrow> error + product list" where
  "getAll st =
     (case select_products st (\<lambda>p. True) of
        Some rows \<Rightarrow> Inr rows
      | None \<Rightarrow> Inl ConnectionError)"

section \<open>Alias resolution (resolveInvoiceAliases)\<close>

definition alias_match :: "invoice_item \<Rightarrow> product \<Rightarrow> bool" where
  "alias_match item p =
     (trim (toLowerCase (p_name p)) = trim (toLowerCase (productName item)))"

definition resolve_item :: "product list \<Rightarrow> invoice_item \<Rightarrow> invoice_item" where
  "resolve_item prods item =
     (case find (alias_match item) prods of
        Some existing \<Rightarrow>
          item\<lparr>productName := p_name existing,
               category := (if p_category existing \<noteq> [] then Some (p_category existing)
                            else category item)\<rparr>
      | None \<Rightarrow> item)"

text \<open>The body of the \<open>try\<close> block, then the function with its \<open>catch\<close>.\<close>

definition resolve_try :: "invoice_item list \<Rightarrow> store \<Rightarrow> error + invoice_item list" where
  "resolve_try items st =
     (case getAll st of
        Inl e \<Rightarrow> Inl e
      | Inr prods \<Rightarrow> Inr (map (resolve_item prods) items))"

definition resolveInvoiceAliases ::
  "invoice_item list \<Rightarrow> string \<Rightarrow> store \<Rightarrow> error + invoice_item list" where
  "resolveInvoiceAliases items supplierName st =
     (case resolve_try items st of
        Inr r \<Rightarrow> Inr r
      | Inl e \<Rightarrow> Inr items)"

section \<open>Product-name matching\<close>

text \<open>The scanner's \<open>getMatch\<close> helper: one \<open>find\<close> over the catalog it was given.\<close>

definition related :: "string \<Rightarrow> product \<Rightarrow> bool" where
  "related itemName p =
     (trim (toLowerCase (p_name p)) = trim (toLowerCase itemName) \<or>
      str_includes (toLowerCase (p_name p)) (toLowerCase itemName) \<or>
      str_includes (toLowerCase itemName) (toLowerCase (p_name p)))"

definition getMatch :: "product list \<Rightarrow> string \<Rightarrow> product option" where
  "getMatch existingProducts itemName = find (related itemName) existingProducts"

text \<open>
  The store's \<open>ilike\<close> filter. PostgREST turns each \<open>*\<close> of the pattern into
  \<open>%\<close> and PostgreSQL matches the whole column value against it without regard to
  case (it folds case as \<open>toLowerCase\<close> does, the database being in a Unicode
  locale): \<open>%\<close> stands for any run of characters, \<open>_\<close> for any one character, and
  a backslash takes the next character literally (a pattern that ends in a backslash
  is an error, so the query gives no data).
\<close>

fun like :: "string \<Rightarrow> string \<Rightarrow> bool" where
  "like s [] = (s = [])"
| "like [] (p # ps) = (p = CHR ''%'' \<and> like [] ps)"
| "like (c # s) (p # ps) =
     (if p = CHR ''%'' then like (c # s) ps \<or> like s (p # ps)
      else if p = CHR ''_'' then like s ps
      else if p = CHR 0x5C then (case ps of [] \<Rightarrow> False | q # qs \<Rightarrow> c = q \<and> like s qs)
      else c = p \<and> like s ps)"

definition star :: "string \<Rightarrow> string" where
  "star pat = map (\<lambda>c. if c = CHR ''*'' then CHR ''%'' else c) pat"

definition ilike :: "string \<Rightarrow> string \<Rightarrow> bool" where
  "ilike s pat = like (toLowerCase s) (toLowerCase (star pat))"

text \<open>A pattern none of whose characters has a special meaning to \<open>ilike\<close>.\<close>

definition wildcard_free :: "string \<Rightarrow> bool" where
  "wildcard_free pat =
     list_all (\<lambda>c. c \<noteq> CHR ''%'' \<and> c \<noteq> CHR ''_'' \<and> c \<noteq> CHR ''*'' \<and> c \<noteq> CHR 0x5C) pat"

text \<open>The writes: an update of the rows that pass a filter, an insert, a log entry.\<close>

definition update_products :: "(product \<Rightarrow> bool) \<Rightarrow> (product \<Rightarrow> product) \<Rightarrow> store \<Rightarrow> store" where
  "update_products P f st =
     (if online st
      then st\<lparr>products := map (\<lambda>p. if P p then f p else p) (products st),
              writes := Suc (writes st)\<rparr>
      else st)"

definition insert_product :: "(ident \<Rightarrow> product) \<Rightarrow> store \<Rightarrow> store" where
  "insert_product row st =
     (if online st
      then st\<lparr>products := products st @ [row (next_id st)], next_id := Suc (next_id st),
              writes := Suc (writes st)\<rparr>
      else st)"

definition logActivity :: "log_type \<Rightarrow> description \<Rightarrow> int \<Rightarrow> timestamp \<Rightarrow> store \<Rightarrow> store" where
  "logActivity ty d amount now st =
     (if online st
      then st\<lparr>activity_logs := activity_logs st @
             [\<lparr>l_type = ty, l_description = d, l_amount = amount, l_date = now\<rparr>],
              writes := Suc (writes st)\<rparr>
      else st)"

section \<open>The supplier registrar (addSupplier)\<close>

text \<open>
  The filter \<open>or(rif.eq.RIF,name.ilike.NAME)\<close>, read as the disjunction it is built
  for (a name or rif holding PostgREST's reserved characters is outside the model).
\<close>

definition supplier_matches :: "string \<Rightarrow> string \<Rightarrow> supplier \<Rightarrow> bool" where
  "supplier_matches name rif s = (s_rif s = rif \<or> ilike (s_name s) name)"

definition addSupplier ::
  "string \<Rightarrow> string \<Rightarrow> timestamp \<Rightarrow> store \<Rightarrow> (error + supplier) \<times> store" where
  "addSupplier name rif now st =
     (case single (select_where (online st) (supplier_matches name rif) (suppliers st)) of
        Some existing \<Rightarrow> (Inr existing, st)
      | None \<Rightarrow>
          if online st then
            (let row = \<lparr>s_id = next_id st, s_name = name, s_rif = rif, s_firstSeen = now\<rparr>
             in (Inr row, st\<lparr>suppliers := suppliers st @ [row], next_id := Suc (next_id st),
                             writes := Suc (writes st)\<rparr>))
          else (Inl StoreError, st))"

section \<open>Currency conversion\<close>

datatype currency = USD | Bs

text \<open>
  \<open>priceInUSD\<close> of updateStock, \<open>displayPrice\<close> of handleEditClick and
  \<open>priceToSave\<close> of handleSave. The rate is a finite number (App.tsx passes
  \<open>exchangeRates?.bcv || 1\<close>, read from a JSON payload).
\<close>

definition priceInUSD :: "currency \<Rightarrow> rat \<Rightarrow> number \<Rightarrow> number" where
  "priceInUSD invoiceCurrency exchangeRate p =
     (if invoiceCurrency = Bs then js_div p exchangeRate else p)"

definition displayPrice :: "currency \<Rightarrow> rat \<Rightarrow> number \<Rightarrow> number" where
  "displayPrice cur exchangeRate p = (if cur = Bs then js_mul p exchangeRate else p)"

definition priceToSave :: "currency \<Rightarrow> rat \<Rightarrow> number \<Rightarrow> number" where
  "priceToSave cur exchangeRate p = (if cur = Bs then js_div p exchangeRate else p)"

text \<open>
  An amount is within the exponents \<open>lo\<close> to \<open>hi\<close> when it is zero or its magnitude
  lies in \<open>2^lo \<le> |a| < 2^(hi+1)\<close>. The normal doubles are those within - 1022 to
  1023. \<open>round_trip_tolerance\<close> is the relative error two roundings can add up to.
\<close>

definition exponent_within :: "int \<Rightarrow> int \<Rightarrow> rat \<Rightarrow> bool" where
  "exponent_within lo hi a = (a = 0 \<or> (lo \<le> ilog2 \<bar>a\<bar> \<and> ilog2 \<bar>a\<bar> \<le> hi))"

definition round_trip_tolerance :: rat where
  "round_trip_tolerance = 1 / 2 ^ 52 + 1 / 2 ^ 106"

section \<open>The stock reconciler (updateStock)\<close>

record supplier_info =
  si_name :: string
  si_rif :: string

text \<open>\<open>supplierInfo?.name || d\<close>.\<close>

definition info_name_or :: "supplier_info option \<Rightarrow> string \<Rightarrow> string" where
  "info_name_or supplierInfo d =
     (case supplierInfo of
        Some i \<Rightarrow> if si_name i \<noteq> [] then si_name i else d
      | None \<Rightarrow> d)"

definition newItemName :: "invoice_item \<Rightarrow> string" where
  "newItemName newItem =
     (if productName newItem \<noteq> [] then productName newItem else ''Producto Desconocido'')"

text \<open>
  The select \<open>ilike('name', newItemName)\<close> and the row the code takes from it:
  \<open>existingProducts[0]\<close>, whichever matching row the store returns first.
\<close>

definition find_existing :: "string \<Rightarrow> store \<Rightarrow> product option" where
  "find_existing nm st =
     (case select_products st (\<lambda>p. ilike (p_name p) nm) of
        Some (e # rest) \<Rightarrow> Some e
      | _ \<Rightarrow> None)"

text \<open>The body of the loop over the items.\<close>

definition updateStock_item ::
  "ident option \<Rightarrow> supplier_info option \<Rightarrow> currency \<Rightarrow> rat \<Rightarrow> timestamp \<Rightarrow>
   invoice_item \<Rightarrow> store \<Rightarrow> store" where
  "updateStock_item supplierId supplierInfo invoiceCurrency exchangeRate now newItem st =
     (let nm = newItemName newItem;
          usd = priceInUSD invoiceCurrency exchangeRate (price newItem)
      in case find_existing nm st of
           Some existing \<Rightarrow>
             logActivity IN (Factura (info_name_or supplierInfo []) nm) (quantity newItem) now
               (update_products (\<lambda>p. p_id p = p_id existing)
                  (\<lambda>p. p\<lparr>p_quantity := p_quantity existing + quantity newItem,
                         p_price := usd,
                         p_lastUpdated := now,
                         p_supplierId := (case supplierId of
                                            Some s \<Rightarrow> Some s
                                          | None \<Rightarrow> p_supplierId existing)\<rparr>) st)
         | None \<Rightarrow>
             logActivity IN (Nuevo (info_name_or supplierInfo ''Manual'') nm) (quantity newItem) now
               (insert_product
                  (\<lambda>i. \<lparr>p_id = i, p_name = nm, p_quantity = quantity newItem, p_minStock = 10,
                         p_price = usd,
                         p_category = (case category newItem of
                                         Some c \<Rightarrow> if c \<noteq> [] then c else ''General''
                                       | None \<Rightarrow> ''General''),
                         p_lastUpdated = now, p_supplierId = supplierId\<rparr>) st))"

text \<open>Step 1: the supplier, when the invoice names one.\<close>

definition handle_supplier ::
  "supplier_info option \<Rightarrow> timestamp \<Rightarrow> store \<Rightarrow> (error + ident option) \<times> store" where
  "handle_supplier supplierInfo now st =
     (case supplierInfo of
        None \<Rightarrow> (Inr None, st)
      | Some i \<Rightarrow>
          if si_name i \<noteq> [] then
            (case addSupplier (si_name i) (if si_rif i \<noteq> [] then si_rif i else ''N/A'') now st of
               (Inl e, st1) \<Rightarrow> (Inl e, st1)
             | (Inr s, st1) \<Rightarrow> (Inr (Some (s_id s)), st1))
          else (Inr None, st))"

definition updateStock ::
  "invoice_item list \<Rightarrow> supplier_info option \<Rightarrow> currency \<Rightarrow> rat \<Rightarrow> timestamp \<Rightarrow> store \<Rightarrow>
   (error + product list) \<times> store" where
  "updateStock items supplierInfo invoiceCurrency exchangeRate now st =
     (case handle_supplier supplierInfo now st of
        (Inl e, st1) \<Rightarrow> (Inl e, st1)
      | (Inr supplierId, st1) \<Rightarrow>
          (let st2 = foldl (\<lambda>s newItem.
                       updateStock_item supplierId supplierInfo invoiceCurrency exchangeRate
                         now newItem s) st1 items
           in (getAll st2, st2)))"

section \<open>Manual stock-out (registerStockOut)\<close>

definition registerStockOut :: "ident \<Rightarrow> int \<Rightarrow> timestamp \<Rightarrow> store \<Rightarrow> store" where
  "registerStockOut productId amount now st =
     (case single (select_products st (\<lambda>p. p_id p = productId)) of
        Some product \<Rightarrow>
          (let newQuantity = max 0 (p_quantity product - amount);
               actualDiff = p_quantity product - newQuantity
           in if 0 < actualDiff then
                logActivity OUT (SalidaManual (p_name product)) actualDiff now
                  (update_products (\<lambda>p. p_id p = productId)
                     (\<lambda>p. p\<lparr>p_quantity := newQuantity, p_lastUpdated := now\<rparr>) st)
              else st)
      | None \<Rightarrow> st)"

section \<open>Editing a product (updateProductDetails)\<close>

record product_updates =
  u_minStock :: "int option"
  u_price :: "number option"
  u_quantity :: "int option"

definition updateProductDetails ::
  "ident \<Rightarrow> product_updates \<Rightarrow> timestamp \<Rightarrow> store \<Rightarrow> (error + product list) \<times> store" where
  "updateProductDetails ident updates now st =
     (if online st then
        (let st1 = update_products (\<lambda>p. p_id p = ident)
                     (\<lambda>p. p\<lparr>p_minStock := (case u_minStock updates of Some m \<Rightarrow> m | None \<Rightarrow> p_minStock p),
                            p_price := (case u_price updates of Some x \<Rightarrow> x | None \<Rightarrow> p_price p),
                            p_quantity := (case u_quantity updates of Some q \<Rightarrow> q | None \<Rightarrow> p_quantity p),
                            p_lastUpdated := now\<rparr>) st
         in (getAll st1, st1))
      else (Inl StoreError, st))"

section \<open>CSV bulk import (importFromCSV)\<close>

text \<open>\<open>s.split(sep)\<close> for a one-character separator.\<close>

fun str_split :: "char \<Rightarrow> string \<Rightarrow> string list" where
  "str_split sep [] = [[]]"
| "str_split sep (c # s) =
     (if c = sep then [] # str_split sep s
      else (case str_split sep s of
              [] \<Rightarrow> [[c]]
            | w # ws \<Rightarrow> (c # w) # ws))"

text \<open>
  \<open>parseInt\<close> and \<open>parseFloat\<close> read the longest prefix of the text that is a number
  (after leading white space) and give NaN when there is none; the number read is
  rounded to the nearest double. \<open>parseInt\<close> reads base 16 after \<open>0x\<close>; its NaN
  is \<open>None\<close>, and its result is an integer (quantities are integers here: an integer
  of more than 308 digits, which JavaScript reads as Infinity, is outside the model and
  is kept as the rounded integer). \<open>parseFloat\<close> reads a sign, \<open>Infinity\<close> or
  digits with an optional fraction and exponent.
\<close>

definition isDigit :: "char \<Rightarrow> bool" where
  "isDigit c = (let n = (of_char c :: nat) in 48 \<le> n \<and> n \<le> 57)"

definition hex_digit :: "char \<Rightarrow> nat option" where
  "hex_digit c =
     (let n = (of_char c :: nat)
      in if 48 \<le> n \<and> n \<le> 57 then Some (n - 48)
         else if 97 \<le> n \<and> n \<le> 102 then Some (n - 87)
         else if 65 \<le> n \<and> n \<le> 70 then Some (n - 55)
         else None)"

definition digit_in :: "nat \<Rightarrow> char \<Rightarrow> nat option" where
  "digit_in radix c =
     (case hex_digit c of
        Some d \<Rightarrow> if d < radix then Some d else None
      | None \<Rightarrow> None)"

definition digits_value :: "nat \<Rightarrow> string \<Rightarrow> int" where
  "digits_value radix ds =
     foldl (\<lambda>acc c. acc * int radix + (case digit_in radix c of Some d \<Rightarrow> int d | None \<Rightarrow> 0))
       0 ds"

definition strip_sign :: "string \<Rightarrow> bool \<times> string" where
  "strip_sign s =
     (case s of
        [] \<Rightarrow> (False, [])
      | c # r \<Rightarrow> if c = CHR ''-'' then (True, r)
                 else if c = CHR ''+'' then (False, r)
                 else (False, s))"

definition parseInt :: "string \<Rightarrow> int option" where
  "parseInt input =
     (let (neg, s) = strip_sign (trimStart input);
          hex = (startsWith s ''0x'' \<or> startsWith s ''0X'');
          radix = (if hex then 16 else 10);
          body = (if hex then drop 2 s else s);
          z = takeWhile (\<lambda>c. digit_in radix c \<noteq> None) body
      in if z = [] then None
         else Some ((if neg then - 1 else 1) * \<lfloor>nearest (of_int (digits_value radix z))\<rfloor>))"

definition exponent_part :: "string \<Rightarrow> int" where
  "exponent_part s =
     (case s of
        [] \<Rightarrow> 0
      | c # r \<Rightarrow>
          if c = CHR ''e'' \<or> c = CHR ''E'' then
            (let (neg, d) = strip_sign r; ds = takeWhile isDigit d
             in if ds = [] then 0 else (if neg then - 1 else 1) * digits_value 10 ds)
          else 0)"

definition pow10 :: "int \<Rightarrow> rat" where
  "pow10 e = (if 0 \<le> e then 10 ^ nat e else 1 / 10 ^ nat (- e))"

definition parseFloat :: "string \<Rightarrow> number" where
  "parseFloat input =
     (let (neg, s) = strip_sign (trimStart input)
      in if startsWith s ''Infinity'' then (if neg then NegInfinity else PosInfinity)
         else
           (let ip = takeWhile isDigit s;
                r1 = dropWhile isDigit s;
                dot = (case r1 of [] \<Rightarrow> False | c # r \<Rightarrow> c = CHR ''.'');
                fp = (if dot then takeWhile isDigit (tl r1) else []);
                r2 = (if dot then dropWhile isDigit (tl r1) else r1)
            in if ip = [] \<and> fp = [] then NaN
               else double_of ((if neg then - 1 else 1)
                               * (of_int (digits_value 10 (ip @ fp)) / 10 ^ length fp)
                               * pow10 (exponent_part r2))))"

text \<open>\<open>cols[k]?.trim()\<close>; \<open>parseInt(x) || d\<close>; \<open>parseFloat(x) || 0\<close>; \<open>x || 'General'\<close>.\<close>

definition col :: "string list \<Rightarrow> nat \<Rightarrow> string option" where
  "col cols k = (if k < length cols then Some (trim (cols ! k)) else None)"

definition int_or :: "string option \<Rightarrow> int \<Rightarrow> int" where
  "int_or x d =
     (case (case x of Some s \<Rightarrow> parseInt s | None \<Rightarrow> None) of
        Some n \<Rightarrow> if n \<noteq> 0 then n else d
      | None \<Rightarrow> d)"

definition float_or_zero :: "string option \<Rightarrow> number" where
  "float_or_zero x =
     (let v = (case x of Some s \<Rightarrow> parseFloat s | None \<Rightarrow> NaN)
      in if truthy v then v else Num 0)"

definition string_or :: "string option \<Rightarrow> string \<Rightarrow> string" where
  "string_or x d = (case x of Some s \<Rightarrow> if s \<noteq> [] then s else d | None \<Rightarrow> d)"

record csv_row =
  r_name :: string
  r_quantity :: int
  r_price :: number
  r_minStock :: int
  r_category :: string

definition parse_cols :: "string list \<Rightarrow> csv_row" where
  "parse_cols cols =
     \<lparr>r_name = (case col cols 0 of Some s \<Rightarrow> s | None \<Rightarrow> []),
      r_quantity = int_or (col cols 1) 0,
      r_price = float_or_zero (col cols 2),
      r_minStock = int_or (col cols 3) 10,
      r_category = string_or (col cols 4) ''General''\<rparr>"

text \<open>
  What the loop does with a parsed row: the match is looked up in
  \<open>currentProducts\<close>, the catalog as read once before the loop.
\<close>

definition import_row ::
  "product list \<Rightarrow> timestamp \<Rightarrow> csv_row \<Rightarrow> store \<times> nat \<times> nat \<Rightarrow> store \<times> nat \<times> nat" where
  "import_row currentProducts now row acc =
     (case acc of (st, addedCount, updatedCount) \<Rightarrow>
        (case find (\<lambda>p. toLowerCase (p_name p) = toLowerCase (r_name row)) currentProducts of
           Some existing \<Rightarrow>
             (update_products (\<lambda>p. p_id p = p_id existing)
                (\<lambda>p. p\<lparr>p_quantity := p_quantity existing + r_quantity row,
                       p_price := (if js_pos (r_price row) then r_price row else p_price existing),
                       p_lastUpdated := now\<rparr>) st,
              addedCount, Suc updatedCount)
         | None \<Rightarrow>
             (insert_product
                (\<lambda>i. \<lparr>p_id = i, p_name = r_name row, p_quantity = r_quantity row,
                       p_minStock = r_minStock row, p_price = r_price row,
                       p_category = r_category row, p_lastUpdated = now,
                       p_supplierId = None\<rparr>) st,
              Suc addedCount, updatedCount)))"

text \<open>The body of the loop over the lines.\<close>

definition import_line ::
  "product list \<Rightarrow> timestamp \<Rightarrow> store \<times> nat \<times> nat \<Rightarrow> string \<Rightarrow> store \<times> nat \<times> nat" where
  "import_line currentProducts now acc raw =
     (let line = trim raw
      in if line = [] then acc
         else (let cols = str_split CHR '','' line
               in if 2 \<le> length cols then import_row currentProducts now (parse_cols cols) acc
                  else acc))"

definition importFromCSV ::
  "string \<Rightarrow> timestamp \<Rightarrow> store \<Rightarrow> (error + nat \<times> nat) \<times> store" where
  "importFromCSV csvText now st =
     (case getAll st of
        Inl e \<Rightarrow> (Inl e, st)
      | Inr currentProducts \<Rightarrow>
          (case foldl (import_line currentProducts now) (st, 0, 0)
                  (drop 1 (str_split (CHR 0x0A) csvText)) of
             (st1, addedCount, updatedCount) \<Rightarrow>
               (Inr (addedCount, updatedCount),
                logActivity IMPORT (ImportacionCSV addedCount updatedCount)
                  (int (addedCount + updatedCount)) now st1)))"

text \<open>The rows the loop works on: the lines after the header that are not blank and have at least two columns.\<close>

definition csv_rows :: "string \<Rightarrow> csv_row list" where
  "csv_rows csvText =
     map (\<lambda>raw. parse_cols (str_split CHR '','' (trim raw)))
       (filter (\<lambda>raw. trim raw \<noteq> [] \<and> 2 \<le> length (str_split CHR '','' (trim raw)))
          (drop 1 (str_split (CHR 0x0A) csvText)))"

text \<open>All product quantities and prices of the store are non-negative.\<close>

definition nonneg_stock :: "store \<Rightarrow> bool" where
  "nonneg_stock st = list_all (\<lambda>p. 0 \<le> p_quantity p \<and> js_nonneg (p_price p)) (products st)"

section \<open>Well-formed stores\<close>

text \<open>Product keys are unique and were all given out by the store.\<close>

definition wf_store :: "store \<Rightarrow> bool" where
  "wf_store st =
     (distinct (map p_id (products st)) \<and> list_all (\<lambda>p. p_id p < next_id st) (products st))"

section \<open>Example data\<close>

definition ex_harina :: product where
  "ex_harina = \<lparr>p_id = 1, p_name = ''Harina Pan'', p_quantity = 5, p_minStock = 10,
     p_price = Num 2, p_category = ''Alimentos'', p_lastUpdated = ''2024-01-01'',
     p_supplierId = None\<rparr>"

definition ex_store :: store where
  "ex_store = \<lparr>products = [ex_harina], suppliers = [], activity_logs = [], next_id = 2,
     online = True, writes = 0, row_rank = (\<lambda>w. p_id)\<rparr>"

definition ex_item :: invoice_item where
  "ex_item = \<lparr>productName = '' harina PAN  '', quantity = 10, price = Num 3, confidence = None,
     originalQuantity = Some 10, detectedPackSize = Some 1, category = Some ''Varios''\<rparr>"

definition ex_line_harina :: invoice_item where
  "ex_line_harina = \<lparr>productName = ''harina pan'', quantity = 10, price = Num 73,
     confidence = None, originalQuantity = Some 10, detectedPackSize = Some 1,
     category = None\<rparr>"

definition ex_line_arroz :: invoice_item where
  "ex_line_arroz = \<lparr>productName = ''Arroz'', quantity = 48, price = Num (73 / 2),
     confidence = None, originalQuantity = Some 2, detectedPackSize = Some 24,
     category = None\<rparr>"

definition ex_info :: supplier_info where
  "ex_info = \<lparr>si_name = ''Polar'', si_rif = []\<rparr>"

definition ex_csv :: string where
  "ex_csv = ''name,quantity,price,minStock,category'' @ [CHR 0x0A] @
            ''Arroz,20,1.50,5,Alimentos'' @ [CHR 0x0A] @
            ''HARINA PAN,7,0''"

definition ex_edit :: product_updates where
  "ex_edit = \<lparr>u_minStock = Some 0, u_price = Some (Num (5 / 2)), u_quantity = None\<rparr>"

definition ex_integral :: product where
  "ex_integral = \<lparr>p_id = 7, p_name = ''Harina Pan Integral'', p_quantity = 2, p_minStock = 10,
     p_price = Num 3, p_category = ''Alimentos'', p_lastUpdated = ''2024-01-01'',
     p_supplierId = None\<rparr>"

definition ex_empty :: store where
  "ex_empty = \<lparr>products = [], suppliers = [], activity_logs = [], next_id = 1, online = True,
     writes = 0, row_rank = (\<lambda>w. p_id)\<rparr>"

text \<open>
  Two invoices registered in turn: one from "Polar" that prints no rif (updateStock
  passes "N/A"), then one from "Plumrose" with its rif.
\<close>

definition ex_two_suppliers :: store where
  "ex_two_suppliers =
     snd (addSupplier ''Plumrose'' ''J-1'' ''2024-01-02''
       (snd (addSupplier ''Polar'' ''N/A'' ''2024-01-01'' ex_empty)))"

text \<open>A file that names the same product on two lines.\<close>

definition ex_csv_repeat :: string where
  "ex_csv_repeat = ''name,quantity,price'' @ [CHR 0x0A] @
                   ''Harina Pan,1,9'' @ [CHR 0x0A] @
                   ''harina pan,1,0''"

text \<open>A catalog with the product "Az\<open>U+00FA\<close>car", and an invoice line that names it in capitals, followed by a no-break space.\<close>

definition ex_azucar :: product where
  "ex_azucar = \<lparr>p_id = 1, p_name = ''Az'' @ [CHR 0xFA] @ ''car'', p_quantity = 4, p_minStock = 10,
     p_price = Num 1, p_category = ''Alimentos'', p_lastUpdated = ''2024-01-01'',
     p_supplierId = None\<rparr>"

definition ex_azucar_store :: store where
  "ex_azucar_store = \<lparr>products = [ex_azucar], suppliers = [], activity_logs = [], next_id = 2,
     online = True, writes = 0, row_rank = (\<lambda>w. p_id)\<rparr>"

definition ex_item_azucar :: invoice_item where
  "ex_item_azucar = \<lparr>productName = ''AZ'' @ [CHR 0xDA] @ ''CAR'' @ [CHR 0xA0], quantity = 2,
     price = Num 1, confidence = None, originalQuantity = Some 2, detectedPackSize = Some 1,
     category = Some ''Varios''\<rparr>"

text \<open>
  A catalog with two rows whose names differ in case only, in a store that returns the
  rows not yet updated on the day first.
\<close>

definition ex_harina_lower :: product where
  "ex_harina_lower = \<lparr>p_id = 2, p_name = ''harina pan'', p_quantity = 1, p_minStock = 10,
     p_price = Num 2, p_category = ''Alimentos'', p_lastUpdated = ''2024-01-01'',
     p_supplierId = None\<rparr>"

definition ex_heap_store :: store where
  "ex_heap_store = \<lparr>products = [ex_harina, ex_harina_lower], suppliers = [], activity_logs = [],
     next_id = 3, online = True, writes = 0,
     row_rank = (\<lambda>w p. if p_lastUpdated p = ''2024-02-02'' then 1 else 0)\<rparr>"

text \<open>
  The store after an invoice whose line for "harina pan" has the quantity - 10: the
  product is left with the quantity - 5.
\<close>

definition ex_negative_store :: store where
  "ex_negative_store =
     snd (updateStock [ex_line_harina\<lparr>quantity := - 10\<rparr>] None USD 1 ''2024-02-02'' ex_store)"

text \<open>A file that names a product not yet on record on two lines; the first gives 0 for minStock.\<close>

definition ex_csv_new_twice :: string where
  "ex_csv_new_twice = ''name,quantity,price,minStock,category'' @ [CHR 0x0A] @
                      ''Arroz,3,1.50,0,Alimentos'' @ [CHR 0x0A] @
                      ''arroz,4,1.50''"

section \<open>Rounding to a double: properties\<close>

lemma round_half_even_near: "\<bar>of_int (round_half_even y) - y\<bar> \<le> 1 / 2"
proof -
  have "of_int \<lfloor>y\<rfloor> \<le> y" "y < of_int \<lfloor>y\<rfloor> + 1" by linarith+
  then show ?thesis
    by (auto simp: round_half_even_def Let_def abs_le_iff)
qed

lemma round_half_even_mono_int: "of_int k \<le> y \<Longrightarrow> k \<le> round_half_even y"
proof -
  assume "of_int k \<le> y"
  then have "k \<le> \<lfloor>y\<rfloor>" by (simp add: le_floor_iff)
  then show ?thesis by (auto simp: round_half_even_def Let_def)
qed

lemma bit_length_nonneg: "0 \<le> bit_length n"
  by (induction n rule: bit_length.induct) (simp add: bit_length.simps)

lemma bit_length_bounds:
  "0 < n \<Longrightarrow> 2 ^ nat (bit_length n - 1) \<le> n \<and> n < 2 ^ nat (bit_length n)"
proof (induction n rule: bit_length.induct)
  case (1 n)
  show ?case
  proof (cases "n div 2 = 0")
    case True
    with "1.prems" have n: "n = 1" by linarith
    have "bit_length (1::int) = 1"
      by (simp add: bit_length.simps[of 1] bit_length.simps[of 0])
    with n show ?thesis by simp
  next
    case False
    with "1.prems" have h: "0 < n div 2" by linarith
    let ?b = "bit_length (n div 2)"
    have ih: "2 ^ nat (?b - 1) \<le> n div 2" "n div 2 < 2 ^ nat ?b"
      using "1.IH" h "1.prems" by auto
    have bpos: "1 \<le> ?b"
    proof (rule ccontr)
      assume "\<not> 1 \<le> ?b"
      then have "nat ?b = 0" by simp
      with ih(2) h show False by simp
    qed
    have bl: "bit_length n = 1 + ?b"
      using "1.prems" by (simp add: bit_length.simps[of n])
    have e1: "nat (bit_length n - 1) = Suc (nat (?b - 1))" using bl bpos by simp
    have e2: "nat (bit_length n) = Suc (nat ?b)" using bl bpos by simp
    have "2 * (n div 2) \<le> n" "n < 2 * (n div 2) + 2" by linarith+
    moreover have "n div 2 + 1 \<le> 2 ^ nat ?b" using ih(2) by simp
    ultimately show ?thesis using ih(1) by (simp add: e1 e2)
  qed
qed

lemma bit_length_bounds_rat:
  assumes "0 < n"
  shows "(2::rat) powi (bit_length n - 1) \<le> of_int n" and "of_int n < (2::rat) powi (bit_length n)"
proof -
  from bit_length_bounds[OF assms]
  have a: "2 ^ nat (bit_length n - 1) \<le> n" and b: "n < 2 ^ nat (bit_length n)" by simp_all
  have pos: "1 \<le> bit_length n"
  proof (rule ccontr)
    assume "\<not> 1 \<le> bit_length n"
    then have "nat (bit_length n) = 0" by simp
    with b assms show False by simp
  qed
  have "(of_int (2 ^ nat (bit_length n - 1)) :: rat) \<le> of_int n"
    using a by (simp only: of_int_le_iff)
  then show "(2::rat) powi (bit_length n - 1) \<le> of_int n"
    using pos by (simp add: power_int_def)
  have "(of_int n :: rat) < of_int (2 ^ nat (bit_length n))"
    using b by (simp only: of_int_less_iff)
  then show "of_int n < (2::rat) powi (bit_length n)"
    using pos by (simp add: power_int_def)
qed

lemma ilog2_bounds:
  assumes "0 < a"
  shows "2 powi (ilog2 a) \<le> a" and "a < 2 powi (ilog2 a + 1)"
proof -
  obtain n d where q: "quotient_of a = (n, d)" by (cases "quotient_of a")
  then have d: "0 < d" by (rule quotient_of_denom_pos)
  have a: "a = of_int n / of_int d" using q by (rule quotient_of_div)
  have n: "0 < n" using assms a d by (simp add: zero_less_divide_iff)
  let ?k = "bit_length n - bit_length d"
  note bn = bit_length_bounds_rat[OF n]
  note bd = bit_length_bounds_rat[OF d]
  have dpos: "(0::rat) < of_int d" using d by simp
  have p1: "(0::rat) < 2 powi (bit_length d - 1)" and p2: "(0::rat) < 2 powi (bit_length d)"
    by simp_all
  have up: "a < 2 powi (?k + 1)"
  proof -
    have "a < 2 powi (bit_length n) / of_int d"
      unfolding a using bn(2) dpos by (simp add: divide_strict_right_mono)
    also have "\<dots> \<le> 2 powi (bit_length n) / 2 powi (bit_length d - 1)"
      using bd(1) p1 mult_pos_pos[OF dpos p1] by (intro divide_left_mono) simp_all
    also have "\<dots> = 2 powi (bit_length n - (bit_length d - 1))"
      by (simp add: power_int_diff)
    also have "bit_length n - (bit_length d - 1) = ?k + 1" by simp
    finally show ?thesis .
  qed
  have lo: "2 powi (?k - 1) < a"
  proof -
    have "(2::rat) powi (?k - 1) = 2 powi ((bit_length n - 1) - bit_length d)"
      by (simp add: algebra_simps)
    also have "\<dots> = 2 powi (bit_length n - 1) / 2 powi (bit_length d)"
      by (simp add: power_int_diff)
    also have "\<dots> \<le> of_int n / 2 powi (bit_length d)"
      using bn(1) p2 by (simp add: divide_right_mono)
    also have "\<dots> < of_int n / of_int d"
      using bd(2) dpos n mult_pos_pos[OF p2 dpos] by (intro divide_strict_left_mono) simp_all
    finally show ?thesis by (simp only: a)
  qed
  have e: "ilog2 a = (if 2 powi ?k \<le> a then ?k else ?k - 1)"
    by (simp add: ilog2_def q Let_def)
  show "2 powi (ilog2 a) \<le> a"
  proof (cases "2 powi ?k \<le> a")
    case True
    with e show ?thesis by simp
  next
    case False
    with e lo show ?thesis by simp
  qed
  show "a < 2 powi (ilog2 a + 1)"
  proof (cases "2 powi ?k \<le> a")
    case True
    with e up show ?thesis by simp
  next
    case False
    with e show ?thesis by simp
  qed
qed

lemma ilog2_unique:
  assumes "(2::rat) powi e \<le> a" and "a < 2 powi (e + 1)"
  shows "ilog2 a = e"
proof -
  have pos: "0 < a" using assms(1) by (rule less_le_trans[rotated]) simp
  note b = ilog2_bounds[OF pos]
  have "(2::rat) powi e < 2 powi (ilog2 a + 1)" using assms(1) b(2) by simp
  then have "e < ilog2 a + 1"
    by (metis not_less power_int_increasing one_le_numeral)
  moreover have "(2::rat) powi (ilog2 a) < 2 powi (e + 1)" using assms(2) b(1) by simp
  then have "ilog2 a < e + 1"
    by (metis not_less power_int_increasing one_le_numeral)
  ultimately show ?thesis by simp
qed

lemma ilog2_less: "0 < a \<Longrightarrow> a < 2 powi E \<Longrightarrow> ilog2 a < E"
proof (rule ccontr)
  assume a: "0 < a" "a < 2 powi E" and "\<not> ilog2 a < E"
  then have "(2::rat) powi E \<le> 2 powi (ilog2 a)"
    by (intro power_int_increasing) simp_all
  with ilog2_bounds(1)[OF a(1)] a(2) show False by simp
qed

lemma ilog2_ge: "0 < a \<Longrightarrow> 2 powi E \<le> a \<Longrightarrow> E \<le> ilog2 a"
proof (rule ccontr)
  assume a: "0 < a" "2 powi E \<le> a" and "\<not> E \<le> ilog2 a"
  then have "(2::rat) powi (ilog2 a + 1) \<le> 2 powi E"
    by (intro power_int_increasing) simp_all
  with ilog2_bounds(2)[OF a(1)] a(2) show False by simp
qed

lemma ilog2_lower: "0 < a \<Longrightarrow> E \<le> ilog2 a \<Longrightarrow> 2 powi E \<le> a"
proof -
  assume a: "0 < a" "E \<le> ilog2 a"
  then have "(2::rat) powi E \<le> 2 powi (ilog2 a)"
    by (intro power_int_increasing) simp_all
  with ilog2_bounds(1)[OF a(1)] show ?thesis by simp
qed

lemma ilog2_upper: "0 < a \<Longrightarrow> ilog2 a \<le> E \<Longrightarrow> a < 2 powi (E + 1)"
proof -
  assume a: "0 < a" "ilog2 a \<le> E"
  then have "(2::rat) powi (ilog2 a + 1) \<le> 2 powi (E + 1)"
    by (intro power_int_increasing) simp_all
  with ilog2_bounds(2)[OF a(1)] show ?thesis by simp
qed

text \<open>The unit roundoff of a double.\<close>

lemma nearest_magnitude:
  assumes "0 < a" and "- 1022 \<le> ilog2 a"
  shows "\<bar>of_int (round_half_even (a / 2 powi (ilog2 a - 52))) * 2 powi (ilog2 a - 52) - a\<bar>
           \<le> a / 2 ^ 53"
proof -
  let ?q = "ilog2 a - 52"
  let ?p = "(2::rat) powi ?q"
  let ?m = "round_half_even (a / ?p)"
  have p: "0 < ?p" by simp
  have "\<bar>of_int ?m - a / ?p\<bar> \<le> 1 / 2" by (rule round_half_even_near)
  then have "\<bar>of_int ?m - a / ?p\<bar> * ?p \<le> 1 / 2 * ?p"
    using p by (intro mult_right_mono) simp_all
  moreover have "\<bar>of_int ?m - a / ?p\<bar> * ?p = \<bar>of_int ?m * ?p - a\<bar>"
  proof -
    have "\<bar>of_int ?m - a / ?p\<bar> * ?p = \<bar>(of_int ?m - a / ?p) * ?p\<bar>"
      using p by (simp add: abs_mult)
    also have "(of_int ?m - a / ?p) * ?p = of_int ?m * ?p - a"
      using p by (simp add: algebra_simps)
    finally show ?thesis .
  qed
  moreover have "1 / 2 * ?p \<le> a / 2 ^ 53"
  proof -
    have "?p = 2 powi (ilog2 a) / 2 powi 52" by (simp add: power_int_diff del: power_int_numeral)
    then have "1 / 2 * ?p = 2 powi (ilog2 a) / 2 ^ 53" by simp
    also have "\<dots> \<le> a / 2 ^ 53"
      using ilog2_bounds(1)[OF assms(1)] by (intro divide_right_mono) simp_all
    finally show ?thesis .
  qed
  ultimately show ?thesis by simp
qed

lemma nearest_error:
  assumes "x \<noteq> 0" and "- 1022 \<le> ilog2 \<bar>x\<bar>"
  shows "\<bar>nearest x - x\<bar> \<le> \<bar>x\<bar> / 2 ^ 53"
proof -
  let ?a = "\<bar>x\<bar>"
  have a: "0 < ?a" using assms(1) by simp
  have q: "max (ilog2 ?a) (- 1022) - 52 = ilog2 ?a - 52" using assms(2) by simp
  let ?v = "of_int (round_half_even (?a / 2 powi (ilog2 ?a - 52))) * 2 powi (ilog2 ?a - 52)"
  have n: "nearest x = (if 0 < x then ?v else - ?v)"
    using assms(1) by (simp only: nearest_def Let_def q if_False)
  have b: "\<bar>?v - ?a\<bar> \<le> ?a / 2 ^ 53" by (rule nearest_magnitude[OF a assms(2)])
  show ?thesis
  proof (cases "0 < x")
    case True
    with n b show ?thesis by simp
  next
    case False
    then have "nearest x - x = - (?v - ?a)" using n assms(1) by simp
    then have "\<bar>nearest x - x\<bar> = \<bar>?v - ?a\<bar>" by (simp only: abs_minus)
    with b show ?thesis by simp
  qed
qed

lemma nearest_nonneg: "0 \<le> x \<Longrightarrow> 0 \<le> nearest x"
proof (cases "x = 0")
  case True
  then show ?thesis by (simp add: nearest_def)
next
  case False
  assume "0 \<le> x"
  with False have x: "0 < x" by simp
  let ?q = "max (ilog2 \<bar>x\<bar>) (- 1022) - 52"
  have "0 \<le> \<bar>x\<bar> / 2 powi ?q" by simp
  then have "0 \<le> round_half_even (\<bar>x\<bar> / 2 powi ?q)"
    using round_half_even_mono_int[of 0] by simp
  then have "0 \<le> (of_int (round_half_even (\<bar>x\<bar> / 2 powi ?q)) :: rat) * 2 powi ?q"
    by (intro mult_nonneg_nonneg) simp_all
  then show ?thesis using x by (simp add: nearest_def Let_def)
qed

lemma double_of_nonneg: "0 \<le> x \<Longrightarrow> js_nonneg (double_of x)"
  using nearest_nonneg[of x] by (simp add: double_of_def Let_def)

lemma double_of_zero [simp]: "double_of 0 = Num 0"
  by (simp add: double_of_def nearest_def)

lemma double_of_normal:
  assumes "x \<noteq> 0" and "- 1022 \<le> ilog2 \<bar>x\<bar>" and "ilog2 \<bar>x\<bar> \<le> 1022"
  shows "\<exists>v. double_of x = Num v \<and> \<bar>v - x\<bar> \<le> \<bar>x\<bar> / 2 ^ 53"
proof -
  let ?v = "nearest x"
  have err: "\<bar>?v - x\<bar> \<le> \<bar>x\<bar> / 2 ^ 53" by (rule nearest_error[OF assms(1,2)])
  show ?thesis
  proof (cases "?v = 0")
    case True
    with err show ?thesis by (simp add: double_of_def)
  next
    case False
    have a: "0 < \<bar>x\<bar>" using assms(1) by simp
    have "\<bar>?v\<bar> \<le> \<bar>x\<bar> + \<bar>?v - x\<bar>" by simp
    also have "\<dots> \<le> \<bar>x\<bar> + \<bar>x\<bar> / 2 ^ 53" using err by simp
    also have "\<dots> \<le> \<bar>x\<bar> * 2" by simp
    also have "\<dots> < 2 powi (1022 + 1) * 2"
      using ilog2_upper[OF a assms(3)] by simp
    also have "\<dots> = (2::rat) powi 1024"
      using power_int_add[of "2::rat" 1023 1] by (simp del: power_int_numeral)
    finally have "\<bar>?v\<bar> < 2 powi 1024" .
    moreover have "0 < \<bar>?v\<bar>" using False by simp
    ultimately have "ilog2 \<bar>?v\<bar> < 1024" by (rule ilog2_less[rotated])
    then show ?thesis using False err by (simp add: double_of_def Let_def)
  qed
qed

lemma double_of_overflow:
  assumes "2 powi 1024 \<le> x"
  shows "double_of x = PosInfinity"
proof -
  have x: "0 < x" using assms by (rule less_le_trans[rotated]) simp
  then have a: "\<bar>x\<bar> = x" by simp
  let ?e = "ilog2 x"
  have e: "1024 \<le> ?e" using x assms by (rule ilog2_ge)
  then have q: "max ?e (- 1022) - 52 = ?e - 52" by simp
  let ?p = "(2::rat) powi (?e - 52)"
  let ?m = "round_half_even (x / ?p)"
  have p: "0 < ?p" by simp
  define K :: rat where "K = 2 powi 52"
  have K1: "K * ?p = 2 powi ?e"
    unfolding K_def using power_int_add[of "2::rat" 52 "?e - 52"] by simp
  have K2: "K = of_int (2 ^ 52)" unfolding K_def by simp
  have "K * ?p \<le> x" using K1 ilog2_bounds(1)[OF x] by simp
  then have "K \<le> x / ?p" using p by (simp add: le_divide_eq)
  then have "(of_int (2 ^ 52) :: rat) \<le> x / ?p" by (simp only: K2)
  then have "2 ^ 52 \<le> ?m" by (rule round_half_even_mono_int)
  then have "(of_int (2 ^ 52) :: rat) \<le> of_int ?m" by (simp only: of_int_le_iff)
  then have "K \<le> of_int ?m" by (simp only: K2)
  then have "K * ?p \<le> of_int ?m * ?p" using p by (intro mult_right_mono) simp_all
  then have v: "2 powi ?e \<le> of_int ?m * ?p" by (simp only: K1)
  have n: "nearest x = of_int ?m * ?p"
    using x by (simp add: nearest_def Let_def a q)
  have "(2::rat) powi 1024 \<le> 2 powi ?e" using e by (intro power_int_increasing) simp_all
  with v n have big: "2 powi 1024 \<le> nearest x" by simp
  then have pos: "0 < nearest x" by (rule less_le_trans[rotated]) simp
  then have "1024 \<le> ilog2 \<bar>nearest x\<bar>" using big by (intro ilog2_ge) simp_all
  with pos show ?thesis by (simp add: double_of_def Let_def)
qed

section \<open>Alias resolution: properties\<close>

lemma getAll_online:
  "online st \<Longrightarrow> getAll st = Inr (sort_key (row_rank st (writes st)) (products st))"
  by (simp add: getAll_def select_products_def)

lemma getAll_offline: "\<not> online st \<Longrightarrow> getAll st = Inl ConnectionError"
  by (simp add: getAll_def select_products_def)

lemma getAll_rows:
  assumes "getAll st = Inr catalog"
  shows "online st" and "catalog = sort_key (row_rank st (writes st)) (products st)"
    and "set catalog = set (products st)" and "length catalog = length (products st)"
proof -
  show up: "online st" using assms getAll_offline[of st] by (cases "online st") simp_all
  show c: "catalog = sort_key (row_rank st (writes st)) (products st)"
    using assms getAll_online[OF up] by simp
  show "set catalog = set (products st)" unfolding c by simp
  show "length catalog = length (products st)" unfolding c by simp
qed

lemma resolveInvoiceAliases_readable:
  "getAll st = Inr catalog \<Longrightarrow>
   resolveInvoiceAliases items supplierName st = Inr (map (resolve_item catalog) items)"
  by (simp add: resolveInvoiceAliases_def resolve_try_def)

lemma resolveInvoiceAliases_offline:
  "\<not> online st \<Longrightarrow> resolveInvoiceAliases items supplierName st = Inr items"
  by (simp add: resolveInvoiceAliases_def resolve_try_def getAll_offline)

lemma resolve_item_cases:
  "(if \<exists>p \<in> set prods. trim (toLowerCase (p_name p)) = trim (toLowerCase (productName item))
    then \<exists>k < length prods.
           trim (toLowerCase (p_name (prods ! k))) = trim (toLowerCase (productName item)) \<and>
           (\<forall>j < k. trim (toLowerCase (p_name (prods ! j))) \<noteq> trim (toLowerCase (productName item))) \<and>
           resolve_item prods item =
             item\<lparr>productName := p_name (prods ! k),
                  category := (if p_category (prods ! k) \<noteq> [] then Some (p_category (prods ! k))
                               else category item)\<rparr>
    else resolve_item prods item = item)"
proof (cases "find (alias_match item) prods")
  case None
  then have "\<not> (\<exists>p \<in> set prods. alias_match item p)"
    by (auto simp: find_None_iff)
  with None show ?thesis
    by (simp add: resolve_item_def alias_match_def)
next
  case (Some e)
  then obtain k where k: "k < length prods" "alias_match item (prods ! k)" "e = prods ! k"
    "\<forall>j < k. \<not> alias_match item (prods ! j)"
    by (auto simp: find_Some_iff)
  then have ex: "\<exists>p \<in> set prods. alias_match item p"
    using nth_mem by blast
  have "resolve_item prods item = item\<lparr>productName := p_name (prods ! k),
                  category := (if p_category (prods ! k) \<noteq> [] then Some (p_category (prods ! k))
                               else category item)\<rparr>"
    using Some k by (simp add: resolve_item_def)
  with k ex show ?thesis
    unfolding alias_match_def by (simp only: if_True) blast
qed

text \<open>
  C7. With a readable catalog (the rows of the store, in the order the read returns
  them), an item is rewritten exactly when some catalog product's name equals its
  productName after lower-casing and trimming (never on a mere substring): it then takes
  the name of the first such product of the catalog, and that product's category when it
  is not empty (else it keeps its own); an item with no such product is returned
  unchanged.
\<close>

theorem resolveInvoiceAliases_exact_trim:
  assumes "getAll st = Inr catalog"
  shows "set catalog = set (products st) \<and>
     (\<exists>r. resolveInvoiceAliases items supplierName st = Inr r \<and> length r = length items \<and>
     (\<forall>i < length items.
        (if \<exists>p \<in> set catalog.
              trim (toLowerCase (p_name p)) = trim (toLowerCase (productName (items ! i)))
         then \<exists>k < length catalog.
                trim (toLowerCase (p_name (catalog ! k))) = trim (toLowerCase (productName (items ! i))) \<and>
                (\<forall>j < k. trim (toLowerCase (p_name (catalog ! j))) \<noteq> trim (toLowerCase (productName (items ! i)))) \<and>
                r ! i = (items ! i)\<lparr>productName := p_name (catalog ! k),
                          category := (if p_category (catalog ! k) \<noteq> [] then Some (p_category (catalog ! k))
                                       else category (items ! i))\<rparr>
         else r ! i = items ! i)))"
proof -
  let ?r = "map (resolve_item catalog) items"
  have "resolveInvoiceAliases items supplierName st = Inr ?r"
    using assms by (rule resolveInvoiceAliases_readable)
  moreover have "length ?r = length items" by simp
  moreover have "\<forall>i < length items.
        (if \<exists>p \<in> set catalog.
              trim (toLowerCase (p_name p)) = trim (toLowerCase (productName (items ! i)))
         then \<exists>k < length catalog.
                trim (toLowerCase (p_name (catalog ! k))) = trim (toLowerCase (productName (items ! i))) \<and>
                (\<forall>j < k. trim (toLowerCase (p_name (catalog ! j))) \<noteq> trim (toLowerCase (productName (items ! i)))) \<and>
                ?r ! i = (items ! i)\<lparr>productName := p_name (catalog ! k),
                          category := (if p_category (catalog ! k) \<noteq> [] then Some (p_category (catalog ! k))
                                       else category (items ! i))\<rparr>
         else ?r ! i = items ! i)"
  proof (intro allI impI)
    fix i assume "i < length items"
    then have "?r ! i = resolve_item catalog (items ! i)" by simp
    then show "(if \<exists>p \<in> set catalog.
              trim (toLowerCase (p_name p)) = trim (toLowerCase (productName (items ! i)))
         then \<exists>k < length catalog.
                trim (toLowerCase (p_name (catalog ! k))) = trim (toLowerCase (productName (items ! i))) \<and>
                (\<forall>j < k. trim (toLowerCase (p_name (catalog ! j))) \<noteq> trim (toLowerCase (productName (items ! i)))) \<and>
                ?r ! i = (items ! i)\<lparr>productName := p_name (catalog ! k),
                          category := (if p_category (catalog ! k) \<noteq> [] then Some (p_category (catalog ! k))
                                       else category (items ! i))\<rparr>
         else ?r ! i = items ! i)"
      by (simp only:) (rule resolve_item_cases)
  qed
  ultimately have "\<exists>r. resolveInvoiceAliases items supplierName st = Inr r \<and>
     length r = length items \<and>
     (\<forall>i < length items.
        (if \<exists>p \<in> set catalog.
              trim (toLowerCase (p_name p)) = trim (toLowerCase (productName (items ! i)))
         then \<exists>k < length catalog.
                trim (toLowerCase (p_name (catalog ! k))) = trim (toLowerCase (productName (items ! i))) \<and>
                (\<forall>j < k. trim (toLowerCase (p_name (catalog ! j))) \<noteq> trim (toLowerCase (productName (items ! i)))) \<and>
                r ! i = (items ! i)\<lparr>productName := p_name (catalog ! k),
                          category := (if p_category (catalog ! k) \<noteq> [] then Some (p_category (catalog ! k))
                                       else category (items ! i))\<rparr>
         else r ! i = items ! i))"
    by blast
  with getAll_rows(3)[OF assms] show ?thesis by (rule conjI)
qed

text \<open>
  The item "AZ\<open>U+00DA\<close>CAR" followed by a no-break space is given the name and the
  category of the catalog's "Az\<open>U+00FA\<close>car".
\<close>

theorem resolveInvoiceAliases_exact_trim_witness:
  "getAll ex_azucar_store = Inr [ex_azucar] \<and>
   resolveInvoiceAliases [ex_item_azucar] ''Polar'' ex_azucar_store =
     Inr [ex_item_azucar\<lparr>productName := ''Az'' @ [CHR 0xFA] @ ''car'',
                         category := Some ''Alimentos''\<rparr>]"
proof -
  have up: "getAll ex_azucar_store = Inr [ex_azucar]" by code_simp
  have ex: "\<exists>p \<in> set [ex_azucar].
      trim (toLowerCase (p_name p)) = trim (toLowerCase (productName ([ex_item_azucar] ! 0)))"
    by code_simp
  note t = resolveInvoiceAliases_exact_trim[OF up, of "[ex_item_azucar]" "''Polar''"]
  from t obtain r where r: "resolveInvoiceAliases [ex_item_azucar] ''Polar'' ex_azucar_store = Inr r"
    "length r = length [ex_item_azucar]"
    and each: "\<forall>i < length [ex_item_azucar].
        (if \<exists>p \<in> set [ex_azucar].
              trim (toLowerCase (p_name p)) = trim (toLowerCase (productName ([ex_item_azucar] ! i)))
         then \<exists>k < length [ex_azucar].
                trim (toLowerCase (p_name ([ex_azucar] ! k))) = trim (toLowerCase (productName ([ex_item_azucar] ! i))) \<and>
                (\<forall>j < k. trim (toLowerCase (p_name ([ex_azucar] ! j))) \<noteq> trim (toLowerCase (productName ([ex_item_azucar] ! i)))) \<and>
                r ! i = ([ex_item_azucar] ! i)\<lparr>productName := p_name ([ex_azucar] ! k),
                          category := (if p_category ([ex_azucar] ! k) \<noteq> [] then Some (p_category ([ex_azucar] ! k))
                                       else category ([ex_item_azucar] ! i))\<rparr>
         else r ! i = [ex_item_azucar] ! i)"
    by blast
  have i0: "0 < length [ex_item_azucar]" by simp
  from each[rule_format, OF i0] obtain k where k: "k < length [ex_azucar]"
    "r ! 0 = ([ex_item_azucar] ! 0)\<lparr>productName := p_name ([ex_azucar] ! k),
          category := (if p_category ([ex_azucar] ! k) \<noteq> [] then Some (p_category ([ex_azucar] ! k))
                       else category ([ex_item_azucar] ! 0))\<rparr>"
    by (simp only: ex if_True) blast
  from k(1) have "k = 0" by simp
  with k(2) have "r ! 0 = ex_item_azucar\<lparr>productName := p_name ex_azucar,
          category := (if p_category ex_azucar \<noteq> [] then Some (p_category ex_azucar)
                       else category ex_item_azucar)\<rparr>"
    by simp
  moreover have "p_name ex_azucar = ''Az'' @ [CHR 0xFA] @ ''car''" "p_category ex_azucar = ''Alimentos''"
    by (simp_all add: ex_azucar_def)
  ultimately have "r ! 0 = ex_item_azucar\<lparr>productName := ''Az'' @ [CHR 0xFA] @ ''car'',
      category := Some ''Alimentos''\<rparr>"
    by simp
  with r(2) have "r = [ex_item_azucar\<lparr>productName := ''Az'' @ [CHR 0xFA] @ ''car'',
      category := Some ''Alimentos''\<rparr>]"
    by (cases r) auto
  with r(1) up show ?thesis by simp
qed

text \<open>
  C8. When the catalog read fails, resolveInvoiceAliases returns the items it was given,
  as a value: the failure does not reach the caller.
\<close>

theorem resolveInvoiceAliases_unreadable:
  "getAll st = Inl e \<Longrightarrow> resolveInvoiceAliases items supplierName st = Inr items"
  by (simp add: resolveInvoiceAliases_def resolve_try_def)

theorem resolveInvoiceAliases_unreadable_witness:
  "getAll (ex_store\<lparr>online := False\<rparr>) = Inl ConnectionError \<and>
   resolveInvoiceAliases [ex_item] ''Polar'' (ex_store\<lparr>online := False\<rparr>) = Inr [ex_item]"
proof -
  have h: "getAll (ex_store\<lparr>online := False\<rparr>) = Inl ConnectionError"
    by (simp add: getAll_def select_products_def)
  show ?thesis using h resolveInvoiceAliases_unreadable[OF h] by simp
qed

lemma resolve_item_frame:
  "quantity (resolve_item prods item) = quantity item"
  "price (resolve_item prods item) = price item"
  "originalQuantity (resolve_item prods item) = originalQuantity item"
  "detectedPackSize (resolve_item prods item) = detectedPackSize item"
  "confidence (resolve_item prods item) = confidence item"
  "(resolve_item prods item)\<lparr>productName := [], category := None\<rparr> = item\<lparr>productName := [], category := None\<rparr>"
  by (simp_all add: resolve_item_def split: option.splits)

text \<open>
  C10. Whatever the state of the catalog, resolveInvoiceAliases returns as many items as
  it was given, in the same order, each with the quantity, price, originalQuantity,
  detectedPackSize and confidence of the input item at its place; two items at the same
  place differ in productName and category at most.
\<close>

theorem resolveInvoiceAliases_frame:
  "\<exists>r. resolveInvoiceAliases items supplierName st = Inr r \<and>
       length r = length items \<and>
       map quantity r = map quantity items \<and>
       map price r = map price items \<and>
       map originalQuantity r = map originalQuantity items \<and>
       map detectedPackSize r = map detectedPackSize items \<and>
       map confidence r = map confidence items \<and>
       map (\<lambda>it. it\<lparr>productName := [], category := None\<rparr>) r =
       map (\<lambda>it. it\<lparr>productName := [], category := None\<rparr>) items"
proof (cases "getAll st")
  case (Inr catalog)
  then show ?thesis
    by (simp add: resolveInvoiceAliases_readable resolve_item_frame o_def)
next
  case (Inl e)
  then show ?thesis
    by (simp add: resolveInvoiceAliases_def resolve_try_def)
qed

section \<open>Currency conversion: properties\<close>

lemma second_rounding:
  fixes a w :: rat
  assumes a0: "a \<noteq> 0" and lo: "- 1021 \<le> ilog2 \<bar>a\<bar>" and hi: "ilog2 \<bar>a\<bar> \<le> 1021"
    and w: "\<bar>w - a\<bar> \<le> \<bar>a\<bar> / 2 ^ 53"
  shows "\<exists>z. double_of w = Num z \<and> \<bar>z - a\<bar> \<le> \<bar>a\<bar> * round_trip_tolerance"
proof -
  define u :: rat where "u = 1 / 2 ^ 53"
  define E :: int where "E = - 1022"
  define F :: int where "F = 1022"
  have u: "0 < u" "u \<le> 1 / 2" unfolding u_def by simp_all
  have apos: "0 < \<bar>a\<bar>" using a0 by simp
  have w': "\<bar>w - a\<bar> \<le> \<bar>a\<bar> * u" using w by (simp add: u_def)
  have au: "\<bar>a\<bar> * u \<le> \<bar>a\<bar> * (1 / 2)" using u apos by (intro mult_left_mono) simp_all
  have wl: "\<bar>a\<bar> / 2 \<le> \<bar>w\<bar>" using w' au by linarith
  have wu: "\<bar>w\<bar> \<le> \<bar>a\<bar> + \<bar>a\<bar> * u" using w' by linarith
  have wpos: "0 < \<bar>w\<bar>" using wl apos by linarith
  have w0: "w \<noteq> 0" using wpos by simp
  have "E + 1 \<le> ilog2 \<bar>a\<bar>" using lo by (simp add: E_def)
  then have "2 powi (E + 1) \<le> \<bar>a\<bar>" by (rule ilog2_lower[OF apos])
  moreover have "(2::rat) powi (E + 1) = 2 powi E * 2" by (rule power_int_add_1) simp
  ultimately have "2 powi E \<le> \<bar>w\<bar>" using wl by linarith
  then have "E \<le> ilog2 \<bar>w\<bar>" by (rule ilog2_ge[OF wpos])
  then have wlo: "- 1022 \<le> ilog2 \<bar>w\<bar>" by (simp add: E_def)
  have "ilog2 \<bar>a\<bar> \<le> F - 1" using hi by (simp add: F_def)
  then have "\<bar>a\<bar> < 2 powi (F - 1 + 1)" by (rule ilog2_upper[OF apos])
  then have "\<bar>a\<bar> < 2 powi F" by simp
  moreover have "(2::rat) powi (F + 1) = 2 powi F * 2" by (rule power_int_add_1) simp
  moreover have "\<bar>w\<bar> \<le> \<bar>a\<bar> * 2" using wu au by linarith
  ultimately have "\<bar>w\<bar> < 2 powi (F + 1)" by linarith
  then have "ilog2 \<bar>w\<bar> < F + 1" by (rule ilog2_less[OF wpos])
  then have whi: "ilog2 \<bar>w\<bar> \<le> 1022" by (simp add: F_def)
  obtain z where z: "double_of w = Num z" and zw: "\<bar>z - w\<bar> \<le> \<bar>w\<bar> / 2 ^ 53"
    using double_of_normal[OF w0 wlo whi] by blast
  have "\<bar>z - w\<bar> \<le> \<bar>w\<bar> * u" using zw by (simp add: u_def)
  also have "\<dots> \<le> (\<bar>a\<bar> + \<bar>a\<bar> * u) * u" using wu u by (intro mult_right_mono) simp_all
  finally have zw': "\<bar>z - w\<bar> \<le> (\<bar>a\<bar> + \<bar>a\<bar> * u) * u" .
  have "\<bar>z - a\<bar> \<le> \<bar>z - w\<bar> + \<bar>w - a\<bar>" by simp
  also have "\<dots> \<le> (\<bar>a\<bar> + \<bar>a\<bar> * u) * u + \<bar>a\<bar> * u" using zw' w' by linarith
  also have "\<dots> = \<bar>a\<bar> * (2 * u + u * u)" by (simp add: algebra_simps)
  also have "2 * u + u * u = round_trip_tolerance"
    by (simp add: u_def round_trip_tolerance_def)
  finally show ?thesis using z by blast
qed

lemma div_then_mul:
  assumes r: "0 < r" and a: "exponent_within (- 1021) 1021 a"
    and q: "exponent_within (- 1022) 1022 (a / r)"
  shows "\<exists>z. js_mul (js_div (Num a) r) r = Num z \<and> \<bar>z - a\<bar> \<le> \<bar>a\<bar> * round_trip_tolerance"
proof (cases "a = 0")
  case True
  then show ?thesis using r by simp
next
  case False
  then have ar: "a / r \<noteq> 0" using r by simp
  from False a have alo: "- 1021 \<le> ilog2 \<bar>a\<bar>" and ahi: "ilog2 \<bar>a\<bar> \<le> 1021"
    by (simp_all add: exponent_within_def)
  from ar q have qlo: "- 1022 \<le> ilog2 \<bar>a / r\<bar>" and qhi: "ilog2 \<bar>a / r\<bar> \<le> 1022"
    by (simp_all add: exponent_within_def)
  obtain y where y: "double_of (a / r) = Num y" and ye: "\<bar>y - a / r\<bar> \<le> \<bar>a / r\<bar> / 2 ^ 53"
    using double_of_normal[OF ar qlo qhi] by blast
  have "\<bar>y * r - a\<bar> = \<bar>y - a / r\<bar> * r"
  proof -
    have "y * r - a = (y - a / r) * r" using r by (simp add: algebra_simps)
    then show ?thesis using r by (simp add: abs_mult)
  qed
  also have "\<dots> \<le> \<bar>a / r\<bar> / 2 ^ 53 * r" using ye r by (intro mult_right_mono) simp_all
  also have "\<dots> = \<bar>a\<bar> / 2 ^ 53" using r by (simp add: abs_divide)
  finally have w: "\<bar>y * r - a\<bar> \<le> \<bar>a\<bar> / 2 ^ 53" .
  have "js_mul (js_div (Num a) r) r = double_of (y * r)" using r y by simp
  with second_rounding[OF False alo ahi w] show ?thesis by simp
qed

lemma mul_then_div:
  assumes r: "0 < r" and a: "exponent_within (- 1021) 1021 a"
    and q: "exponent_within (- 1022) 1022 (a * r)"
  shows "\<exists>z. js_div (js_mul (Num a) r) r = Num z \<and> \<bar>z - a\<bar> \<le> \<bar>a\<bar> * round_trip_tolerance"
proof (cases "a = 0")
  case True
  then show ?thesis using r by simp
next
  case False
  then have ar: "a * r \<noteq> 0" using r by simp
  from False a have alo: "- 1021 \<le> ilog2 \<bar>a\<bar>" and ahi: "ilog2 \<bar>a\<bar> \<le> 1021"
    by (simp_all add: exponent_within_def)
  from ar q have qlo: "- 1022 \<le> ilog2 \<bar>a * r\<bar>" and qhi: "ilog2 \<bar>a * r\<bar> \<le> 1022"
    by (simp_all add: exponent_within_def)
  obtain y where y: "double_of (a * r) = Num y" and ye: "\<bar>y - a * r\<bar> \<le> \<bar>a * r\<bar> / 2 ^ 53"
    using double_of_normal[OF ar qlo qhi] by blast
  have "\<bar>y / r - a\<bar> = \<bar>y - a * r\<bar> / r"
  proof -
    have "y / r - a = (y - a * r) / r" using r by (simp add: field_simps)
    then show ?thesis using r by (simp add: abs_divide)
  qed
  also have "\<dots> \<le> \<bar>a * r\<bar> / 2 ^ 53 / r" using ye r by (intro divide_right_mono) simp_all
  also have "\<dots> = \<bar>a\<bar> / 2 ^ 53" using r by (simp add: abs_mult)
  finally have w: "\<bar>y / r - a\<bar> \<le> \<bar>a\<bar> / 2 ^ 53" .
  have "js_div (js_mul (Num a) r) r = double_of (y / r)" using r y by simp
  with second_rounding[OF False alo ahi w] show ?thesis by simp
qed

text \<open>
  C9. Converting an amount to the canonical currency and back for display, and the other
  way round. For USD both conversions are the identity, so the round trip returns the
  amount itself, whatever number it is. For Bs the amount is divided by the rate and
  then multiplied by it (or the reverse), and each operation rounds to a double: for a
  positive rate, an amount that is zero or within the exponents - 1021 to 1021, and an
  intermediate quotient (product) that is zero or within the exponents - 1022 to 1022,
  the round trip returns a finite number within the relative error \<open>2^-52 + 2^-106\<close>
  of the amount, which need not be the amount itself.
\<close>

theorem currency_round_trip:
  assumes "0 < r" and "exponent_within (- 1021) 1021 a"
  shows "(exponent_within (- 1022) 1022 (a / r) \<longrightarrow>
            (\<exists>z. displayPrice Bs r (priceInUSD Bs r (Num a)) = Num z \<and>
                  \<bar>z - a\<bar> \<le> \<bar>a\<bar> * round_trip_tolerance) \<and>
            (\<exists>z. displayPrice Bs r (priceToSave Bs r (Num a)) = Num z \<and>
                  \<bar>z - a\<bar> \<le> \<bar>a\<bar> * round_trip_tolerance)) \<and>
         (exponent_within (- 1022) 1022 (a * r) \<longrightarrow>
            (\<exists>z. priceToSave Bs r (displayPrice Bs r (Num a)) = Num z \<and>
                  \<bar>z - a\<bar> \<le> \<bar>a\<bar> * round_trip_tolerance) \<and>
            (\<exists>z. priceInUSD Bs r (displayPrice Bs r (Num a)) = Num z \<and>
                  \<bar>z - a\<bar> \<le> \<bar>a\<bar> * round_trip_tolerance)) \<and>
         displayPrice USD r (priceInUSD USD r x) = x \<and>
         displayPrice USD r (priceToSave USD r x) = x \<and>
         priceToSave USD r (displayPrice USD r x) = x \<and>
         priceInUSD USD r (displayPrice USD r x) = x"
  using div_then_mul[OF assms] mul_then_div[OF assms]
  by (simp add: displayPrice_def priceInUSD_def priceToSave_def)

text \<open>
  An amount of 75 Bs at the rate 36.5 comes back as \<open>75 + 2^-46\<close>
  (75.00000000000001): within the tolerance, not equal.
\<close>

theorem currency_round_trip_witness:
  "(0::rat) < 73 / 2 \<and> exponent_within (- 1021) 1021 75 \<and>
   exponent_within (- 1022) 1022 (75 / (73 / 2)) \<and>
   displayPrice Bs (73 / 2) (priceInUSD Bs (73 / 2) (Num 75)) = Num (75 + 1 / 2 ^ 46) \<and>
   \<bar>(75 + 1 / 2 ^ 46) - 75\<bar> \<le> \<bar>75 :: rat\<bar> * round_trip_tolerance \<and>
   displayPrice USD (73 / 2) (priceInUSD USD (73 / 2) (Num 75)) = Num 75"
proof -
  have h1: "(0::rat) < 73 / 2" by simp
  have h2: "exponent_within (- 1021) 1021 75" by code_simp
  have h3: "exponent_within (- 1022) 1022 (75 / (73 / 2))" by code_simp
  have e: "displayPrice Bs (73 / 2) (priceInUSD Bs (73 / 2) (Num 75)) = Num (75 + 1 / 2 ^ 46)"
    by code_simp
  note t = currency_round_trip[OF h1 h2, of "Num 75"]
  from t h3 obtain z
    where z: "displayPrice Bs (73 / 2) (priceInUSD Bs (73 / 2) (Num 75)) = Num z"
      and b: "\<bar>z - 75\<bar> \<le> \<bar>75 :: rat\<bar> * round_trip_tolerance"
    by blast
  from z e have "Num z = Num (75 + 1 / 2 ^ 46)" by (simp only:)
  then have zz: "z = 75 + 1 / 2 ^ 46" by (simp only: number.inject)
  have b': "\<bar>(75 + 1 / 2 ^ 46) - 75\<bar> \<le> \<bar>75 :: rat\<bar> * round_trip_tolerance"
    using b unfolding zz .
  from t have usd: "displayPrice USD (73 / 2) (priceInUSD USD (73 / 2) (Num 75)) = Num 75"
    by blast
  from h1 h2 h3 e b' usd show ?thesis by (simp only: simp_thms)
qed

text \<open>
  The claim as stated fails where the division overflows: the amount \<open>2^1023\<close>
  (about 8.99e307, a double) at the rate 0.5 converts to Infinity, and Infinity is
  what the display conversion gives back.
\<close>

theorem currency_conversion_overflow:
  "priceInUSD Bs (1 / 2) (Num (2 ^ 1023)) = PosInfinity \<and>
   displayPrice Bs (1 / 2) (priceInUSD Bs (1 / 2) (Num (2 ^ 1023))) = PosInfinity"
proof -
  have "(2::rat) powi 1024 \<le> 2 ^ 1023 / (1 / 2)" by simp
  then have "double_of (2 ^ 1023 / (1 / 2)) = PosInfinity" by (rule double_of_overflow)
  then show ?thesis by (simp add: priceInUSD_def displayPrice_def)
qed

section \<open>The stock reconciler: properties\<close>

lemma select_products_online:
  "online st \<Longrightarrow>
   select_products st P = Some (sort_key (row_rank st (writes st)) (filter P (products st)))"
  by (simp add: select_products_def)

lemma find_existing_offline: "\<not> online st \<Longrightarrow> find_existing nm st = None"
  by (simp add: find_existing_def select_products_def)

lemma find_existing_cases:
  assumes "online st"
  shows "if \<exists>p \<in> set (products st). ilike (p_name p) nm
         then \<exists>e. find_existing nm st = Some e \<and> e \<in> set (products st) \<and> ilike (p_name e) nm
         else find_existing nm st = None"
proof -
  let ?rows = "sort_key (row_rank st (writes st)) (filter (\<lambda>p. ilike (p_name p) nm) (products st))"
  have rows: "set ?rows = {p \<in> set (products st). ilike (p_name p) nm}" by simp
  have sel: "select_products st (\<lambda>p. ilike (p_name p) nm) = Some ?rows"
    using assms by (rule select_products_online)
  show ?thesis
  proof (cases ?rows)
    case Nil
    then have "set ?rows = {}" by (simp only: set_empty)
    with rows have "{p \<in> set (products st). ilike (p_name p) nm} = {}" by simp
    then have "\<not> (\<exists>p \<in> set (products st). ilike (p_name p) nm)" by blast
    moreover have "find_existing nm st = None"
      unfolding find_existing_def sel using Nil by simp
    ultimately show ?thesis by simp
  next
    case (Cons e rest)
    then have "e \<in> set ?rows" by (simp only: list.set_intros)
    with rows have "e \<in> {p \<in> set (products st). ilike (p_name p) nm}" by simp
    then have e: "e \<in> set (products st)" "ilike (p_name e) nm" by simp_all
    moreover have "find_existing nm st = Some e"
      unfolding find_existing_def sel using Cons by simp
    ultimately show ?thesis by auto
  qed
qed

lemma find_existing_Some:
  assumes "find_existing nm st = Some e"
  shows "online st" and "e \<in> set (products st)" and "ilike (p_name e) nm"
proof -
  show up: "online st" using assms find_existing_offline[of st nm] by (cases "online st") simp_all
  from find_existing_cases[OF up, of nm] assms
  show "e \<in> set (products st)" and "ilike (p_name e) nm"
    by (auto split: if_splits)
qed

lemma find_existing_None:
  assumes "online st" and "find_existing nm st = None"
  shows "\<not> (\<exists>p \<in> set (products st). ilike (p_name p) nm)"
  using find_existing_cases[OF assms(1), of nm] assms(2) by (auto split: if_splits)

lemma map_update_distinct:
  assumes "distinct (map p_id ps)" and "i < length ps"
  shows "map (\<lambda>p. if p_id p = p_id (ps ! i) then f p else p) ps = ps[i := f (ps ! i)]"
proof (rule nth_equalityI)
  show "length (map (\<lambda>p. if p_id p = p_id (ps ! i) then f p else p) ps) = length (ps[i := f (ps ! i)])"
    by simp
next
  fix j assume "j < length (map (\<lambda>p. if p_id p = p_id (ps ! i) then f p else p) ps)"
  then have j: "j < length ps" by simp
  show "map (\<lambda>p. if p_id p = p_id (ps ! i) then f p else p) ps ! j = ps[i := f (ps ! i)] ! j"
  proof (cases "j = i")
    case True
    with j show ?thesis by simp
  next
    case False
    have "map p_id ps ! j \<noteq> map p_id ps ! i"
      using assms j False by (simp add: nth_eq_iff_index_eq del: nth_map)
    with j assms(2) have "p_id (ps ! j) \<noteq> p_id (ps ! i)" by simp
    with j False show ?thesis by simp
  qed
qed

lemma online_logActivity [simp]: "online (logActivity ty d a now st) = online st"
  by (simp add: logActivity_def)

lemma products_logActivity [simp]: "products (logActivity ty d a now st) = products st"
  by (simp add: logActivity_def)

lemma suppliers_logActivity [simp]: "suppliers (logActivity ty d a now st) = suppliers st"
  by (simp add: logActivity_def)

lemma next_id_logActivity [simp]: "next_id (logActivity ty d a now st) = next_id st"
  by (simp add: logActivity_def)

lemma logs_logActivity:
  "online st \<Longrightarrow> activity_logs (logActivity ty d a now st) =
     activity_logs st @ [\<lparr>l_type = ty, l_description = d, l_amount = a, l_date = now\<rparr>]"
  by (simp add: logActivity_def)

lemma online_update_products [simp]: "online (update_products P f st) = online st"
  by (simp add: update_products_def)

lemma logs_update_products [simp]: "activity_logs (update_products P f st) = activity_logs st"
  by (simp add: update_products_def)

lemma suppliers_update_products [simp]: "suppliers (update_products P f st) = suppliers st"
  by (simp add: update_products_def)

lemma next_id_update_products [simp]: "next_id (update_products P f st) = next_id st"
  by (simp add: update_products_def)

lemma products_update_products:
  "online st \<Longrightarrow> products (update_products P f st) = map (\<lambda>p. if P p then f p else p) (products st)"
  by (simp add: update_products_def)

lemma online_insert_product [simp]: "online (insert_product row st) = online st"
  by (simp add: insert_product_def)

lemma logs_insert_product [simp]: "activity_logs (insert_product row st) = activity_logs st"
  by (simp add: insert_product_def)

lemma suppliers_insert_product [simp]: "suppliers (insert_product row st) = suppliers st"
  by (simp add: insert_product_def)

lemma products_insert_product:
  "online st \<Longrightarrow> products (insert_product row st) = products st @ [row (next_id st)]"
  by (simp add: insert_product_def)

lemma next_id_insert_product:
  "online st \<Longrightarrow> next_id (insert_product row st) = Suc (next_id st)"
  by (simp add: insert_product_def)

lemma online_updateStock_item [simp]:
  "online (updateStock_item sid si cur rate now it st) = online st"
  by (simp add: updateStock_item_def Let_def split: option.splits)

lemma suppliers_updateStock_item [simp]:
  "suppliers (updateStock_item sid si cur rate now it st) = suppliers st"
  by (simp add: updateStock_item_def Let_def split: option.splits)

lemma updateStock_item_existing:
  assumes "online st" and "find_existing (newItemName it) st = Some e"
  shows "products (updateStock_item sid si cur rate now it st) =
           map (\<lambda>p. if p_id p = p_id e
                     then p\<lparr>p_quantity := p_quantity e + quantity it,
                            p_price := priceInUSD cur rate (price it),
                            p_lastUpdated := now,
                            p_supplierId := (case sid of Some s \<Rightarrow> Some s | None \<Rightarrow> p_supplierId e)\<rparr>
                     else p) (products st)"
    and "activity_logs (updateStock_item sid si cur rate now it st) =
           activity_logs st @ [\<lparr>l_type = IN, l_description = Factura (info_name_or si []) (newItemName it),
                                 l_amount = quantity it, l_date = now\<rparr>]"
    and "next_id (updateStock_item sid si cur rate now it st) = next_id st"
  using assms
  by (simp_all add: updateStock_item_def Let_def logs_logActivity products_update_products)

lemma updateStock_item_new:
  assumes "online st" and "find_existing (newItemName it) st = None"
  shows "products (updateStock_item sid si cur rate now it st) =
           products st @
             [\<lparr>p_id = next_id st, p_name = newItemName it, p_quantity = quantity it, p_minStock = 10,
               p_price = priceInUSD cur rate (price it),
               p_category = (case category it of
                               Some c \<Rightarrow> if c \<noteq> [] then c else ''General''
                             | None \<Rightarrow> ''General''),
               p_lastUpdated = now, p_supplierId = sid\<rparr>]"
    and "activity_logs (updateStock_item sid si cur rate now it st) =
           activity_logs st @ [\<lparr>l_type = IN, l_description = Nuevo (info_name_or si ''Manual'') (newItemName it),
                                 l_amount = quantity it, l_date = now\<rparr>]"
    and "next_id (updateStock_item sid si cur rate now it st) = Suc (next_id st)"
  using assms
  by (simp_all add: updateStock_item_def Let_def logs_logActivity products_insert_product
        next_id_insert_product)

lemma wf_store_updateStock_item:
  assumes "online st" and "wf_store st"
  shows "wf_store (updateStock_item sid si cur rate now it st)"
proof (cases "find_existing (newItemName it) st")
  case None
  have "\<forall>p \<in> set (products st). p_id p < next_id st"
    using assms(2) by (simp add: wf_store_def list_all_iff)
  then have "next_id st \<notin> p_id ` set (products st)" by auto
  then show ?thesis
    using assms updateStock_item_new[OF assms(1) None, of sid si cur rate now]
    by (auto simp: wf_store_def list_all_iff)
next
  case (Some e)
  have "map p_id (products (updateStock_item sid si cur rate now it st)) = map p_id (products st)"
    by (simp add: updateStock_item_existing(1)[OF assms(1) Some] o_def)
  moreover have "set (map p_id (products st)) = p_id ` set (products st)" by simp
  ultimately show ?thesis
    using assms(2) updateStock_item_existing(3)[OF assms(1) Some, of sid si cur rate now]
    apply (simp add: wf_store_def list_all_iff)
    by (metis (no_types, lifting) image_iff list.set_map)
qed

lemma updateStock_item_effect:
  assumes "online st" and "wf_store st"
  shows "(if \<exists>p \<in> set (products st). ilike (p_name p) (newItemName it)
          then \<exists>i < length (products st).
                 find_existing (newItemName it) st = Some (products st ! i) \<and>
                 ilike (p_name (products st ! i)) (newItemName it) \<and>
                 products (updateStock_item sid si cur rate now it st) =
                   (products st)[i := (products st ! i)
                      \<lparr>p_quantity := p_quantity (products st ! i) + quantity it,
                       p_price := priceInUSD cur rate (price it),
                       p_lastUpdated := now,
                       p_supplierId := (case sid of Some s \<Rightarrow> Some s
                                        | None \<Rightarrow> p_supplierId (products st ! i))\<rparr>]
          else
              products (updateStock_item sid si cur rate now it st) =
                products st @
                  [\<lparr>p_id = next_id st, p_name = newItemName it, p_quantity = quantity it,
                    p_minStock = 10, p_price = priceInUSD cur rate (price it),
                    p_category = (case category it of
                                    Some c \<Rightarrow> if c \<noteq> [] then c else ''General''
                                  | None \<Rightarrow> ''General''),
                    p_lastUpdated = now, p_supplierId = sid\<rparr>]) \<and>
         (\<exists>d. activity_logs (updateStock_item sid si cur rate now it st) =
                activity_logs st @ [\<lparr>l_type = IN, l_description = d, l_amount = quantity it,
                                      l_date = now\<rparr>])"
proof (cases "find_existing (newItemName it) st")
  case None
  have no: "\<not> (\<exists>p \<in> set (products st). ilike (p_name p) (newItemName it))"
    using assms(1) None by (rule find_existing_None)
  show ?thesis
    using updateStock_item_new[OF assms(1) None, of sid si cur rate now] no
    by (simp only: if_False) blast
next
  case (Some e)
  have e: "e \<in> set (products st)" "ilike (p_name e) (newItemName it)"
    using find_existing_Some[OF Some] by blast+
  then obtain i where i: "i < length (products st)" "products st ! i = e"
    by (auto simp: in_set_conv_nth)
  have yes: "\<exists>p \<in> set (products st). ilike (p_name p) (newItemName it)"
    using e by blast
  have d: "distinct (map p_id (products st))"
    using assms(2) by (simp add: wf_store_def)
  have upd: "products (updateStock_item sid si cur rate now it st) =
          (products st)[i := e\<lparr>p_quantity := p_quantity e + quantity it,
                       p_price := priceInUSD cur rate (price it),
                       p_lastUpdated := now,
                       p_supplierId := (case sid of Some s \<Rightarrow> Some s | None \<Rightarrow> p_supplierId e)\<rparr>]"
    using updateStock_item_existing(1)[OF assms(1) Some]
      map_update_distinct[OF d i(1),
        of "\<lambda>p. p\<lparr>p_quantity := p_quantity e + quantity it,
                       p_price := priceInUSD cur rate (price it),
                       p_lastUpdated := now,
                       p_supplierId := (case sid of Some s \<Rightarrow> Some s | None \<Rightarrow> p_supplierId e)\<rparr>"]
      i(2)
    by simp
  have lg: "\<exists>d. activity_logs (updateStock_item sid si cur rate now it st) =
                activity_logs st @ [\<lparr>l_type = IN, l_description = d, l_amount = quantity it,
                                      l_date = now\<rparr>]"
    using updateStock_item_existing(2)[OF assms(1) Some, of sid si cur rate now] by blast
  have "\<exists>i < length (products st).
                 find_existing (newItemName it) st = Some (products st ! i) \<and>
                 ilike (p_name (products st ! i)) (newItemName it) \<and>
                 products (updateStock_item sid si cur rate now it st) =
                   (products st)[i := (products st ! i)
                      \<lparr>p_quantity := p_quantity (products st ! i) + quantity it,
                       p_price := priceInUSD cur rate (price it),
                       p_lastUpdated := now,
                       p_supplierId := (case sid of Some s \<Rightarrow> Some s
                                        | None \<Rightarrow> p_supplierId (products st ! i))\<rparr>]"
    using i Some e(2) upd by blast
  with yes lg show ?thesis by (simp only: if_True simp_thms)
qed

lemma updateStock_loop_inv:
  "online st \<Longrightarrow> wf_store st \<Longrightarrow>
   online (foldl (\<lambda>s newItem. updateStock_item sid si cur rate now newItem s) st xs) \<and>
   wf_store (foldl (\<lambda>s newItem. updateStock_item sid si cur rate now newItem s) st xs)"
  by (induction xs arbitrary: st) (simp_all add: wf_store_updateStock_item)

lemma addSupplier_online:
  assumes "online st"
  shows "\<exists>s st1. addSupplier name rif now st = (Inr s, st1) \<and> products st1 = products st \<and>
           activity_logs st1 = activity_logs st \<and> online st1 \<and> next_id st \<le> next_id st1"
  using assms by (simp add: addSupplier_def Let_def split: option.splits)

lemma handle_supplier_online:
  assumes "online st"
  shows "\<exists>sid st1. handle_supplier si now st = (Inr sid, st1) \<and> products st1 = products st \<and>
           activity_logs st1 = activity_logs st \<and> online st1 \<and> next_id st \<le> next_id st1 \<and>
           (case si of
              None \<Rightarrow> sid = None
            | Some i \<Rightarrow>
                if si_name i \<noteq> [] then
                  \<exists>s. fst (addSupplier (si_name i) (if si_rif i \<noteq> [] then si_rif i else ''N/A'') now st) = Inr s \<and>
                      sid = Some (s_id s)
                else sid = None)"
proof (cases si)
  case None
  then show ?thesis using assms by (simp add: handle_supplier_def)
next
  case (Some i)
  show ?thesis
  proof (cases "si_name i \<noteq> []")
    case False
    with Some assms show ?thesis by (simp add: handle_supplier_def)
  next
    case True
    obtain s st1 where a: "addSupplier (si_name i) (if si_rif i \<noteq> [] then si_rif i else ''N/A'') now st = (Inr s, st1)"
      "products st1 = products st" "activity_logs st1 = activity_logs st" "online st1"
      "next_id st \<le> next_id st1"
      using addSupplier_online[OF assms] by blast
    with Some True show ?thesis by (simp add: handle_supplier_def)
  qed
qed

lemma wf_store_mono:
  "wf_store st \<Longrightarrow> products st1 = products st \<Longrightarrow> next_id st \<le> next_id st1 \<Longrightarrow> wf_store st1"
  by (auto simp: wf_store_def list_all_iff)

text \<open>
  C1. updateStock on a store that answers and whose product keys are unique: after the
  supplier step (which leaves the products alone and yields the registered supplier's
  id, or none when the invoice names no supplier), the items are processed in order, and
  for each item, between the state before it and the state after it: if some catalog
  row matches the item's name, then for the matching row that the select returns first
  (whichever it is: the select asks for no order), that product's quantity becomes its
  quantity plus the item's, its price the price in USD, its lastUpdated the current
  time, and its supplierId the registered supplier's id if there is one, else it stays;
  no other row changes. If no row matches, exactly one product is added, with the item's
  quantity, minStock 10, the price in USD, the item's category or "General", and the
  registered supplier's id or none. In both cases exactly one IN log entry with the
  item's quantity as amount is added.
\<close>

theorem updateStock_reconciles:
  assumes "online st" and "wf_store st"
  shows "\<exists>supplierId st1.
     handle_supplier supplierInfo now st = (Inr supplierId, st1) \<and>
     products st1 = products st \<and>
     (case supplierInfo of
        None \<Rightarrow> supplierId = None
      | Some i \<Rightarrow>
          if si_name i \<noteq> [] then
            \<exists>s. fst (addSupplier (si_name i) (if si_rif i \<noteq> [] then si_rif i else ''N/A'') now st) = Inr s \<and>
                supplierId = Some (s_id s)
          else supplierId = None) \<and>
     snd (updateStock items supplierInfo cur rate now st) =
       foldl (\<lambda>s newItem. updateStock_item supplierId supplierInfo cur rate now newItem s) st1 items \<and>
     (\<forall>k < length items.
        let newItem = items ! k;
            before = foldl (\<lambda>s newItem. updateStock_item supplierId supplierInfo cur rate now newItem s)
                       st1 (take k items);
            after = foldl (\<lambda>s newItem. updateStock_item supplierId supplierInfo cur rate now newItem s)
                       st1 (take (Suc k) items);
            usd = priceInUSD cur rate (price newItem)
        in (if \<exists>p \<in> set (products before). ilike (p_name p) (newItemName newItem)
            then \<exists>i < length (products before).
                   find_existing (newItemName newItem) before = Some (products before ! i) \<and>
                   ilike (p_name (products before ! i)) (newItemName newItem) \<and>
                   products after =
                     (products before)[i := (products before ! i)
                        \<lparr>p_quantity := p_quantity (products before ! i) + quantity newItem,
                         p_price := usd,
                         p_lastUpdated := now,
                         p_supplierId := (case supplierId of Some s \<Rightarrow> Some s
                                          | None \<Rightarrow> p_supplierId (products before ! i))\<rparr>]
            else
                products after =
                  products before @
                    [\<lparr>p_id = next_id before, p_name = newItemName newItem,
                      p_quantity = quantity newItem, p_minStock = 10, p_price = usd,
                      p_category = (case category newItem of
                                      Some c \<Rightarrow> if c \<noteq> [] then c else ''General''
                                    | None \<Rightarrow> ''General''),
                      p_lastUpdated = now, p_supplierId = supplierId\<rparr>]) \<and>
           (\<exists>d. activity_logs after =
                  activity_logs before @ [\<lparr>l_type = IN, l_description = d,
                                            l_amount = quantity newItem, l_date = now\<rparr>]))"
proof -
  obtain supplierId st1 where h: "handle_supplier supplierInfo now st = (Inr supplierId, st1)"
    "products st1 = products st" "online st1" "next_id st \<le> next_id st1"
    and sid: "(case supplierInfo of
        None \<Rightarrow> supplierId = None
      | Some i \<Rightarrow>
          if si_name i \<noteq> [] then
            \<exists>s. fst (addSupplier (si_name i) (if si_rif i \<noteq> [] then si_rif i else ''N/A'') now st) = Inr s \<and>
                supplierId = Some (s_id s)
          else supplierId = None)"
    using handle_supplier_online[OF assms(1), of supplierInfo now] by blast
  let ?step = "\<lambda>s newItem. updateStock_item supplierId supplierInfo cur rate now newItem s"
  have wf1: "wf_store st1"
    using assms(2) h(2,4) by (rule wf_store_mono)
  have run: "snd (updateStock items supplierInfo cur rate now st) = foldl ?step st1 items"
    using h(1) by (simp add: updateStock_def Let_def)
  have each: "\<forall>k < length items.
        let newItem = items ! k;
            before = foldl ?step st1 (take k items);
            after = foldl ?step st1 (take (Suc k) items);
            usd = priceInUSD cur rate (price newItem)
        in (if \<exists>p \<in> set (products before). ilike (p_name p) (newItemName newItem)
            then \<exists>i < length (products before).
                   find_existing (newItemName newItem) before = Some (products before ! i) \<and>
                   ilike (p_name (products before ! i)) (newItemName newItem) \<and>
                   products after =
                     (products before)[i := (products before ! i)
                        \<lparr>p_quantity := p_quantity (products before ! i) + quantity newItem,
                         p_price := usd,
                         p_lastUpdated := now,
                         p_supplierId := (case supplierId of Some s \<Rightarrow> Some s
                                          | None \<Rightarrow> p_supplierId (products before ! i))\<rparr>]
            else
                products after =
                  products before @
                    [\<lparr>p_id = next_id before, p_name = newItemName newItem,
                      p_quantity = quantity newItem, p_minStock = 10, p_price = usd,
                      p_category = (case category newItem of
                                      Some c \<Rightarrow> if c \<noteq> [] then c else ''General''
                                    | None \<Rightarrow> ''General''),
                      p_lastUpdated = now, p_supplierId = supplierId\<rparr>]) \<and>
           (\<exists>d. activity_logs after =
                  activity_logs before @ [\<lparr>l_type = IN, l_description = d,
                                            l_amount = quantity newItem, l_date = now\<rparr>])"
  proof (intro allI impI)
    fix k assume k: "k < length items"
    let ?before = "foldl ?step st1 (take k items)"
    have inv: "online ?before" "wf_store ?before"
      using updateStock_loop_inv[OF h(3) wf1] by blast+
    have after: "foldl ?step st1 (take (Suc k) items) =
        updateStock_item supplierId supplierInfo cur rate now (items ! k) ?before"
      using k by (simp add: take_Suc_conv_app_nth)
    show "let newItem = items ! k;
            before = foldl ?step st1 (take k items);
            after = foldl ?step st1 (take (Suc k) items);
            usd = priceInUSD cur rate (price newItem)
        in (if \<exists>p \<in> set (products before). ilike (p_name p) (newItemName newItem)
            then \<exists>i < length (products before).
                   find_existing (newItemName newItem) before = Some (products before ! i) \<and>
                   ilike (p_name (products before ! i)) (newItemName newItem) \<and>
                   products after =
                     (products before)[i := (products before ! i)
                        \<lparr>p_quantity := p_quantity (products before ! i) + quantity newItem,
                         p_price := usd,
                         p_lastUpdated := now,
                         p_supplierId := (case supplierId of Some s \<Rightarrow> Some s
                                          | None \<Rightarrow> p_supplierId (products before ! i))\<rparr>]
            else
                products after =
                  products before @
                    [\<lparr>p_id = next_id before, p_name = newItemName newItem,
                      p_quantity = quantity newItem, p_minStock = 10, p_price = usd,
                      p_category = (case category newItem of
                                      Some c \<Rightarrow> if c \<noteq> [] then c else ''General''
                                    | None \<Rightarrow> ''General''),
                      p_lastUpdated = now, p_supplierId = supplierId\<rparr>]) \<and>
           (\<exists>d. activity_logs after =
                  activity_logs before @ [\<lparr>l_type = IN, l_description = d,
                                            l_amount = quantity newItem, l_date = now\<rparr>])"
      unfolding Let_def after
      by (rule updateStock_item_effect[OF inv])
  qed
  from h(1,2) sid run each show ?thesis by blast
qed

text \<open>
  Two rows match "harina pan", and the store returns the rows not yet updated first (as
  a PostgreSQL heap does): two invoice lines for "harina pan" add 10 to each of them.
\<close>

theorem updateStock_reconciles_witness:
  "online ex_heap_store \<and> wf_store ex_heap_store \<and>
   (\<exists>supplierId st1.
      handle_supplier (Some ex_info) ''2024-02-02'' ex_heap_store = (Inr supplierId, st1) \<and>
      snd (updateStock [ex_line_harina, ex_line_harina] (Some ex_info) Bs (73 / 2) ''2024-02-02'' ex_heap_store) =
        foldl (\<lambda>s newItem. updateStock_item supplierId (Some ex_info) Bs (73 / 2) ''2024-02-02'' newItem s)
          st1 [ex_line_harina, ex_line_harina]) \<and>
   products (snd (updateStock [ex_line_harina, ex_line_harina] (Some ex_info) Bs (73 / 2) ''2024-02-02'' ex_heap_store)) =
     [\<lparr>p_id = 1, p_name = ''Harina Pan'', p_quantity = 15, p_minStock = 10, p_price = Num 2,
       p_category = ''Alimentos'', p_lastUpdated = ''2024-02-02'', p_supplierId = Some 3\<rparr>,
      \<lparr>p_id = 2, p_name = ''harina pan'', p_quantity = 11, p_minStock = 10, p_price = Num 2,
       p_category = ''Alimentos'', p_lastUpdated = ''2024-02-02'', p_supplierId = Some 3\<rparr>]"
proof -
  have a: "online ex_heap_store" by code_simp
  have b: "wf_store ex_heap_store" by code_simp
  have c: "\<exists>supplierId st1.
      handle_supplier (Some ex_info) ''2024-02-02'' ex_heap_store = (Inr supplierId, st1) \<and>
      snd (updateStock [ex_line_harina, ex_line_harina] (Some ex_info) Bs (73 / 2) ''2024-02-02'' ex_heap_store) =
        foldl (\<lambda>s newItem. updateStock_item supplierId (Some ex_info) Bs (73 / 2) ''2024-02-02'' newItem s)
          st1 [ex_line_harina, ex_line_harina]"
    using updateStock_reconciles[OF a b, of "Some ex_info" "''2024-02-02''" "[ex_line_harina, ex_line_harina]" Bs "73 / 2"]
    by blast
  have d: "products (snd (updateStock [ex_line_harina, ex_line_harina] (Some ex_info) Bs (73 / 2) ''2024-02-02'' ex_heap_store)) =
     [\<lparr>p_id = 1, p_name = ''Harina Pan'', p_quantity = 15, p_minStock = 10, p_price = Num 2,
       p_category = ''Alimentos'', p_lastUpdated = ''2024-02-02'', p_supplierId = Some 3\<rparr>,
      \<lparr>p_id = 2, p_name = ''harina pan'', p_quantity = 11, p_minStock = 10, p_price = Num 2,
       p_category = ''Alimentos'', p_lastUpdated = ''2024-02-02'', p_supplierId = Some 3\<rparr>]"
    by code_simp
  from a b c d show ?thesis by blast
qed

section \<open>Manual stock-out: properties\<close>

lemma filter_key_distinct:
  "distinct (map f xs) \<Longrightarrow> i < length xs \<Longrightarrow> filter (\<lambda>p. f p = f (xs ! i)) xs = [xs ! i]"
proof (induction xs arbitrary: i)
  case Nil
  then show ?case by simp
next
  case (Cons x xs)
  show ?case
  proof (cases i)
    case 0
    have "\<forall>p \<in> set xs. f p \<noteq> f x" using Cons.prems(1) by (auto simp: image_iff)
    then have "filter (\<lambda>p. f p = f x) xs = []" by (simp add: filter_empty_conv)
    with 0 show ?thesis by simp
  next
    case (Suc j)
    with Cons.prems have j: "j < length xs" and d: "distinct (map f xs)" by simp_all
    have "f x \<noteq> f (xs ! j)" using Cons.prems(1) j by auto
    with Suc Cons.IH[OF d j] show ?thesis by simp
  qed
qed

lemma single_by_id:
  assumes "online st" and "distinct (map p_id (products st))" and "i < length (products st)"
  shows "single (select_products st (\<lambda>p. p_id p = p_id (products st ! i))) =
           Some (products st ! i)"
  using assms filter_key_distinct[of p_id "products st" i]
  by (simp add: select_products_def)

text \<open>
  C3 (as amended). For a product with current quantity q and any amount a, let the
  clamped delta be q - max(0, q - a). When it is positive, registerStockOut sets the
  quantity to max(0, q - a) and appends one OUT log entry whose amount is the delta; when
  it is zero or negative (as for a quantity that is already negative), nothing is changed
  and nothing is logged. A quantity that was not negative is not negative afterwards, also when a > q.
\<close>

theorem registerStockOut_clamped:
  assumes "online st" and "wf_store st" and "i < length (products st)"
    and "p_id (products st ! i) = productId"
  shows "let product = products st ! i;
             q = p_quantity product;
             newQuantity = max 0 (q - amount);
             delta = q - newQuantity;
             st' = registerStockOut productId amount now st
         in (if 0 < delta
             then products st' = (products st)[i := product\<lparr>p_quantity := newQuantity, p_lastUpdated := now\<rparr>] \<and>
                  activity_logs st' =
                    activity_logs st @ [\<lparr>l_type = OUT, l_description = SalidaManual (p_name product),
                                          l_amount = delta, l_date = now\<rparr>]
             else st' = st) \<and>
            length (products st') = length (products st) \<and>
            (0 \<le> q \<longrightarrow> 0 \<le> p_quantity (products st' ! i))"
proof -
  let ?p = "products st ! i"
  let ?nq = "max 0 (p_quantity ?p - amount)"
  have d: "distinct (map p_id (products st))" using assms(2) by (simp add: wf_store_def)
  have s: "single (select_products st (\<lambda>p. p_id p = productId)) = Some ?p"
    using single_by_id[OF assms(1) d assms(3)] assms(4) by simp
  have r0: "registerStockOut productId amount now st =
      (if 0 < p_quantity ?p - ?nq
       then logActivity OUT (SalidaManual (p_name ?p)) (p_quantity ?p - ?nq) now
              (update_products (\<lambda>p. p_id p = productId)
                 (\<lambda>p. p\<lparr>p_quantity := ?nq, p_lastUpdated := now\<rparr>) st)
       else st)"
    unfolding registerStockOut_def s Let_def by simp
  show ?thesis
  proof (cases "0 < p_quantity ?p - ?nq")
    case False
    then have "registerStockOut productId amount now st = st"
      by (simp only: r0 if_False)
    with False show ?thesis by (simp add: Let_def)
  next
    case True
    have upd: "map (\<lambda>p. if p_id p = productId then p\<lparr>p_quantity := ?nq, p_lastUpdated := now\<rparr> else p) (products st) =
               (products st)[i := ?p\<lparr>p_quantity := ?nq, p_lastUpdated := now\<rparr>]"
      using map_update_distinct[OF d assms(3), of "\<lambda>p. p\<lparr>p_quantity := ?nq, p_lastUpdated := now\<rparr>"] assms(4)
      by simp
    have r: "registerStockOut productId amount now st =
          logActivity OUT (SalidaManual (p_name ?p)) (p_quantity ?p - ?nq) now
            (update_products (\<lambda>p. p_id p = productId) (\<lambda>p. p\<lparr>p_quantity := ?nq, p_lastUpdated := now\<rparr>) st)"
      using True by (simp only: r0 if_True)
    have "products (registerStockOut productId amount now st) =
            (products st)[i := ?p\<lparr>p_quantity := ?nq, p_lastUpdated := now\<rparr>]"
      using assms(1) upd by (simp add: r products_update_products)
    moreover have "activity_logs (registerStockOut productId amount now st) =
            activity_logs st @ [\<lparr>l_type = OUT, l_description = SalidaManual (p_name ?p),
                                  l_amount = p_quantity ?p - ?nq, l_date = now\<rparr>]"
      using assms(1) by (simp add: r logs_logActivity)
    ultimately show ?thesis using True assms(3) by (simp add: Let_def)
  qed
qed

theorem registerStockOut_clamped_witness:
  "online ex_store \<and> wf_store ex_store \<and> 0 < length (products ex_store) \<and>
   p_id (products ex_store ! 0) = 1 \<and>
   products (registerStockOut 1 8 ''2024-03-03'' ex_store) =
     [ex_harina\<lparr>p_quantity := 0, p_lastUpdated := ''2024-03-03''\<rparr>] \<and>
   activity_logs (registerStockOut 1 8 ''2024-03-03'' ex_store) =
     [\<lparr>l_type = OUT, l_description = SalidaManual ''Harina Pan'', l_amount = 5,
       l_date = ''2024-03-03''\<rparr>]"
proof -
  have a: "online ex_store" by code_simp
  have b: "wf_store ex_store" by code_simp
  have c: "0 < length (products ex_store)" by code_simp
  have d: "p_id (products ex_store ! 0) = 1" by code_simp
  have e: "products ex_store = [ex_harina]" "activity_logs ex_store = []"
    by (simp_all add: ex_store_def)
  have f: "p_quantity ex_harina = 5" "p_name ex_harina = ''Harina Pan''"
    by (simp_all add: ex_harina_def)
  show ?thesis
    using a b c d registerStockOut_clamped[OF a b c d, of 8 "''2024-03-03''"] e f
    by (simp add: Let_def)
qed

text \<open>
  The claim as stated fails for a product whose stored quantity is negative (here - 5, left by
  an invoice line with a negative quantity) and an amount of 3: the clamped delta is
  not zero, yet the quantity is not set to max(0, q - a) = 0 and no OUT entry is
  written.
\<close>

theorem registerStockOut_negative_quantity:
  "p_quantity (products ex_negative_store ! 0) = - 5 \<and>
   p_quantity (products ex_negative_store ! 0)
     - max 0 (p_quantity (products ex_negative_store ! 0) - 3) \<noteq> 0 \<and>
   p_quantity (products (registerStockOut 1 3 ''2024-03-03'' ex_negative_store) ! 0) \<noteq>
     max 0 (p_quantity (products ex_negative_store ! 0) - 3) \<and>
   activity_logs (registerStockOut 1 3 ''2024-03-03'' ex_negative_store) =
     activity_logs ex_negative_store"
  by code_simp

section \<open>Non-negative stock: properties\<close>

lemma js_pos_nonneg: "js_pos x \<Longrightarrow> js_nonneg x"
  by (cases x) simp_all

lemma js_nonneg_priceInUSD:
  "js_nonneg x \<Longrightarrow> (cur = Bs \<longrightarrow> 0 < rate) \<Longrightarrow> js_nonneg (priceInUSD cur rate x)"
  by (cases x) (auto simp: priceInUSD_def double_of_nonneg)

lemma nonneg_stock_logActivity [simp]:
  "nonneg_stock (logActivity ty d a now st) = nonneg_stock st"
  by (simp add: nonneg_stock_def)

lemma nonneg_stock_update_products:
  assumes "nonneg_stock st"
    and "\<And>p. p \<in> set (products st) \<Longrightarrow> P p \<Longrightarrow> 0 \<le> p_quantity (f p) \<and> js_nonneg (p_price (f p))"
  shows "nonneg_stock (update_products P f st)"
  using assms by (auto simp: nonneg_stock_def update_products_def list_all_iff)

lemma nonneg_stock_insert_product:
  assumes "nonneg_stock st"
    and "0 \<le> p_quantity (row (next_id st)) \<and> js_nonneg (p_price (row (next_id st)))"
  shows "nonneg_stock (insert_product row st)"
  using assms by (auto simp: nonneg_stock_def insert_product_def list_all_iff)

lemma find_existing_in_set:
  "find_existing nm st = Some e \<Longrightarrow> e \<in> set (products st)"
  by (rule find_existing_Some(2))

lemma nonneg_stock_updateStock_item:
  assumes "nonneg_stock st" and "0 \<le> quantity it" and "js_nonneg (price it)"
    and "cur = Bs \<longrightarrow> 0 < rate"
  shows "nonneg_stock (updateStock_item sid si cur rate now it st)"
proof (cases "find_existing (newItemName it) st")
  case None
  then show ?thesis
    using assms by (simp add: updateStock_item_def Let_def nonneg_stock_insert_product
        js_nonneg_priceInUSD)
next
  case (Some e)
  then have "e \<in> set (products st)" by (rule find_existing_in_set)
  then have "0 \<le> p_quantity e"
    using assms(1) by (auto simp: nonneg_stock_def list_all_iff)
  then show ?thesis
    using Some assms by (simp add: updateStock_item_def Let_def nonneg_stock_update_products
        js_nonneg_priceInUSD)
qed

lemma nonneg_stock_updateStock_loop:
  assumes "list_all (\<lambda>it. 0 \<le> quantity it \<and> js_nonneg (price it)) items"
    and "cur = Bs \<longrightarrow> 0 < rate"
  shows "nonneg_stock st \<Longrightarrow>
     nonneg_stock (foldl (\<lambda>s newItem. updateStock_item sid si cur rate now newItem s) st items)"
  using assms(1)
proof (induction items arbitrary: st)
  case Nil
  then show ?case by simp
next
  case (Cons it items)
  then show ?case
    using assms(2) by (simp add: nonneg_stock_updateStock_item)
qed

lemma products_addSupplier: "products (snd (addSupplier name rif now st)) = products st"
  by (simp add: addSupplier_def Let_def split: option.splits)

lemma products_handle_supplier: "products (snd (handle_supplier si now st)) = products st"
proof (cases si)
  case None
  then show ?thesis by (simp add: handle_supplier_def)
next
  case (Some i)
  show ?thesis
  proof (cases "si_name i \<noteq> []")
    case False
    with Some show ?thesis by (simp add: handle_supplier_def)
  next
    case True
    obtain r st1 where a: "addSupplier (si_name i) (if si_rif i \<noteq> [] then si_rif i else ''N/A'') now st = (r, st1)"
      by (cases "addSupplier (si_name i) (if si_rif i \<noteq> [] then si_rif i else ''N/A'') now st")
    then have "products st1 = products st"
      using products_addSupplier[of "si_name i" "if si_rif i \<noteq> [] then si_rif i else ''N/A''" now st]
      by simp
    with Some True a show ?thesis
      by (cases r) (simp_all add: handle_supplier_def)
  qed
qed

lemma nonneg_stock_updateStock:
  assumes "nonneg_stock st"
    and "list_all (\<lambda>it. 0 \<le> quantity it \<and> js_nonneg (price it)) items"
    and "cur = Bs \<longrightarrow> 0 < rate"
  shows "nonneg_stock (snd (updateStock items si cur rate now st))"
proof -
  obtain r st1 where h: "handle_supplier si now st = (r, st1)"
    by (cases "handle_supplier si now st")
  then have "products st1 = products st"
    using products_handle_supplier[of si now st] by simp
  then have n1: "nonneg_stock st1"
    using assms(1) by (simp add: nonneg_stock_def)
  show ?thesis
  proof (cases r)
    case (Inl e)
    with h n1 show ?thesis by (simp add: updateStock_def)
  next
    case (Inr sid)
    with h show ?thesis
      using nonneg_stock_updateStock_loop[OF assms(2,3) n1]
      by (simp add: updateStock_def Let_def)
  qed
qed

lemma nonneg_stock_registerStockOut:
  assumes "nonneg_stock st"
  shows "nonneg_stock (registerStockOut productId amount now st)"
proof -
  have "\<And>q. nonneg_stock (update_products (\<lambda>p. p_id p = productId)
           (\<lambda>p. p\<lparr>p_quantity := max 0 q, p_lastUpdated := now\<rparr>) st)"
    using assms by (auto simp: nonneg_stock_def update_products_def list_all_iff)
  then show ?thesis
    using assms by (simp add: registerStockOut_def Let_def split: option.splits)
qed

lemma nonneg_stock_updateProductDetails:
  assumes "nonneg_stock st"
    and "case u_quantity updates of Some q \<Rightarrow> 0 \<le> q | None \<Rightarrow> True"
    and "case u_price updates of Some x \<Rightarrow> js_nonneg x | None \<Rightarrow> True"
  shows "nonneg_stock (snd (updateProductDetails ident updates now st))"
proof (cases "online st")
  case False
  with assms(1) show ?thesis by (simp add: updateProductDetails_def)
next
  case True
  have "nonneg_stock (update_products (\<lambda>p. p_id p = ident)
           (\<lambda>p. p\<lparr>p_minStock := (case u_minStock updates of Some m \<Rightarrow> m | None \<Rightarrow> p_minStock p),
                  p_price := (case u_price updates of Some x \<Rightarrow> x | None \<Rightarrow> p_price p),
                  p_quantity := (case u_quantity updates of Some q \<Rightarrow> q | None \<Rightarrow> p_quantity p),
                  p_lastUpdated := now\<rparr>) st)"
    using assms by (auto simp: nonneg_stock_def update_products_def list_all_iff split: option.splits)
  with True show ?thesis by (simp add: updateProductDetails_def Let_def)
qed

lemma import_lines_rows:
  "foldl (import_line cp now) acc ls =
   foldl (\<lambda>a row. import_row cp now row a) acc
     (map (\<lambda>raw. parse_cols (str_split CHR '','' (trim raw)))
        (filter (\<lambda>raw. trim raw \<noteq> [] \<and> 2 \<le> length (str_split CHR '','' (trim raw))) ls))"
  by (induction ls arbitrary: acc) (simp_all add: import_line_def Let_def)

lemma importFromCSV_rows:
  "getAll st = Inr cp \<Longrightarrow>
   importFromCSV csvText now st =
     (case foldl (\<lambda>a row. import_row cp now row a) (st, 0, 0) (csv_rows csvText) of
        (st1, addedCount, updatedCount) \<Rightarrow>
          (Inr (addedCount, updatedCount),
           logActivity IMPORT (ImportacionCSV addedCount updatedCount)
             (int (addedCount + updatedCount)) now st1))"
  by (simp add: importFromCSV_def import_lines_rows csv_rows_def)

lemma nonneg_stock_import_row:
  assumes "nonneg_stock st"
    and "list_all (\<lambda>p. 0 \<le> p_quantity p \<and> js_nonneg (p_price p)) cp"
    and "0 \<le> r_quantity row" and "js_nonneg (r_price row)"
  shows "nonneg_stock (fst (import_row cp now row (st, a, u)))"
proof (cases "find (\<lambda>p. toLowerCase (p_name p) = toLowerCase (r_name row)) cp")
  case None
  then show ?thesis
    using assms by (simp add: import_row_def nonneg_stock_insert_product)
next
  case (Some e)
  then have "e \<in> set cp" by (auto simp: find_Some_iff)
  then have "0 \<le> p_quantity e" "js_nonneg (p_price e)"
    using assms(2) by (auto simp: list_all_iff)
  then show ?thesis
    using Some assms by (simp add: import_row_def nonneg_stock_update_products js_pos_nonneg)
qed

lemma nonneg_stock_import_loop:
  assumes "list_all (\<lambda>p. 0 \<le> p_quantity p \<and> js_nonneg (p_price p)) cp"
  shows "list_all (\<lambda>r. 0 \<le> r_quantity r \<and> js_nonneg (r_price r)) rows \<Longrightarrow>
     nonneg_stock (fst acc) \<Longrightarrow>
     nonneg_stock (fst (foldl (\<lambda>a row. import_row cp now row a) acc rows))"
proof (induction rows arbitrary: acc)
  case Nil
  then show ?case by simp
next
  case (Cons row rows)
  obtain st a u where acc: "acc = (st, a, u)" by (cases acc)
  have "nonneg_stock (fst (import_row cp now row acc))"
    using Cons.prems assms by (simp add: acc nonneg_stock_import_row)
  with Cons show ?case by simp
qed

lemma nonneg_stock_importFromCSV:
  assumes "nonneg_stock st"
    and "list_all (\<lambda>r. 0 \<le> r_quantity r \<and> js_nonneg (r_price r)) (csv_rows csvText)"
  shows "nonneg_stock (snd (importFromCSV csvText now st))"
proof (cases "getAll st")
  case (Inl e)
  with assms(1) show ?thesis by (simp add: importFromCSV_def)
next
  case (Inr catalog)
  have "set catalog = set (products st)" using Inr by (rule getAll_rows(3))
  then have cp: "list_all (\<lambda>p. 0 \<le> p_quantity p \<and> js_nonneg (p_price p)) catalog"
    using assms(1) by (simp add: nonneg_stock_def list_all_iff)
  have "nonneg_stock (fst (foldl (\<lambda>a row. import_row catalog now row a) (st, 0, 0) (csv_rows csvText)))"
    using nonneg_stock_import_loop[OF cp assms(2), of "(st, 0, 0)" now] assms(1) by simp
  then show ?thesis
    by (cases "foldl (\<lambda>a row. import_row catalog now row a) (st, 0, 0) (csv_rows csvText)")
       (simp add: importFromCSV_rows[OF Inr])
qed

text \<open>
  C4 (as amended). From a store whose product quantities and prices are all
  non-negative: registerStockOut keeps them non-negative for every product id and
  amount; updateStock does when every item's quantity and price are non-negative and,
  for an invoice in Bs, the rate is positive; importFromCSV does when every parsed row's
  quantity and price are non-negative; updateProductDetails does when the quantity and
  the price it is given, if any, are non-negative.
\<close>

theorem nonneg_stock_preserved:
  assumes "nonneg_stock st"
  shows "nonneg_stock (registerStockOut productId amount now st) \<and>
     (list_all (\<lambda>it. 0 \<le> quantity it \<and> js_nonneg (price it)) items \<and> (cur = Bs \<longrightarrow> 0 < rate) \<longrightarrow>
        nonneg_stock (snd (updateStock items supplierInfo cur rate now st))) \<and>
     (list_all (\<lambda>r. 0 \<le> r_quantity r \<and> js_nonneg (r_price r)) (csv_rows csvText) \<longrightarrow>
        nonneg_stock (snd (importFromCSV csvText now st))) \<and>
     ((case u_quantity updates of Some q \<Rightarrow> 0 \<le> q | None \<Rightarrow> True) \<and>
      (case u_price updates of Some x \<Rightarrow> js_nonneg x | None \<Rightarrow> True) \<longrightarrow>
        nonneg_stock (snd (updateProductDetails ident updates now st)))"
  using assms
  by (simp add: nonneg_stock_registerStockOut nonneg_stock_updateStock
      nonneg_stock_importFromCSV nonneg_stock_updateProductDetails)

theorem nonneg_stock_preserved_witness:
  "nonneg_stock ex_store \<and>
   list_all (\<lambda>it. 0 \<le> quantity it \<and> js_nonneg (price it)) [ex_line_harina, ex_line_arroz] \<and>
   (0::rat) < 73 / 2 \<and>
   list_all (\<lambda>r. 0 \<le> r_quantity r \<and> js_nonneg (r_price r)) (csv_rows ex_csv) \<and>
   u_quantity ex_edit = None \<and> u_price ex_edit = Some (Num (5 / 2)) \<and>
   nonneg_stock (registerStockOut 1 8 ''2024-03-03'' ex_store) \<and>
   nonneg_stock (snd (updateStock [ex_line_harina, ex_line_arroz] (Some ex_info) Bs (73 / 2) ''2024-03-03'' ex_store)) \<and>
   nonneg_stock (snd (importFromCSV ex_csv ''2024-03-03'' ex_store)) \<and>
   nonneg_stock (snd (updateProductDetails 1 ex_edit ''2024-03-03'' ex_store))"
proof -
  have a: "nonneg_stock ex_store" by code_simp
  have b: "list_all (\<lambda>it. 0 \<le> quantity it \<and> js_nonneg (price it)) [ex_line_harina, ex_line_arroz]"
    by code_simp
  have c: "(0::rat) < 73 / 2" by simp
  have d: "list_all (\<lambda>r. 0 \<le> r_quantity r \<and> js_nonneg (r_price r)) (csv_rows ex_csv)"
    by code_simp
  have e: "u_quantity ex_edit = None" "u_price ex_edit = Some (Num (5 / 2))"
    by (simp_all add: ex_edit_def)
  show ?thesis
    using a b c d e
      nonneg_stock_preserved[OF a, of 1 8 "''2024-03-03''" "[ex_line_harina, ex_line_arroz]" Bs "73 / 2"
        "Some ex_info" ex_csv ex_edit 1]
    by simp
qed

text \<open>
  The claim as stated fails: the service functions do not check their inputs, so an
  invoice line with a negative quantity drives a stored quantity below zero.
\<close>

theorem nonneg_stock_negative_invoice_quantity:
  "nonneg_stock ex_store \<and>
   \<not> nonneg_stock (snd (updateStock [ex_line_harina\<lparr>quantity := - 10\<rparr>] None USD 1 ''2024-03-03'' ex_store))"
  by code_simp

section \<open>Product-name matching: properties\<close>

lemma startsWith_iff: "startsWith s t \<longleftrightarrow> (\<exists>b. s = t @ b)"
  by (induction s t rule: startsWith.induct) auto

lemma str_includes_iff: "str_includes s t \<longleftrightarrow> (\<exists>a b. s = a @ t @ b)"
proof (induction s)
  case Nil
  then show ?case by auto
next
  case (Cons c s)
  show ?case
  proof
    assume "str_includes (c # s) t"
    then consider "startsWith (c # s) t" | "str_includes s t" by auto
    then show "\<exists>a b. c # s = a @ t @ b"
    proof cases
      case 1
      then obtain b where "c # s = t @ b" by (auto simp: startsWith_iff)
      then have "c # s = [] @ t @ b" by simp
      then show ?thesis by blast
    next
      case 2
      then obtain a b where "s = a @ t @ b" using Cons.IH by blast
      then have "c # s = (c # a) @ t @ b" by simp
      then show ?thesis by blast
    qed
  next
    assume "\<exists>a b. c # s = a @ t @ b"
    then obtain a b where ab: "c # s = a @ t @ b" by blast
    show "str_includes (c # s) t"
    proof (cases a)
      case Nil
      with ab have "startsWith (c # s) t" by (auto simp: startsWith_iff)
      then show ?thesis by simp
    next
      case (Cons x a')
      with ab have "s = a' @ t @ b" by simp
      then have "str_includes s t" using Cons.IH by blast
      then show ?thesis by simp
    qed
  qed
qed

lemma like_plain:
  "list_all (\<lambda>c. c \<noteq> CHR ''%'' \<and> c \<noteq> CHR ''_'' \<and> c \<noteq> CHR 0x5C) pat \<Longrightarrow> like s pat \<longleftrightarrow> s = pat"
  by (induction s pat rule: like.induct) auto

lemma of_char_toLowerCase_char:
  "(of_char (toLowerCase_char c) :: nat) =
     (if (65 \<le> (of_char c :: nat) \<and> (of_char c :: nat) \<le> 90) \<or>
         (192 \<le> (of_char c :: nat) \<and> (of_char c :: nat) \<le> 222 \<and> (of_char c :: nat) \<noteq> 215)
      then of_char c + 32 else of_char c)"
  by (auto simp: toLowerCase_char_def Let_def)

lemma toLowerCase_char_plain:
  assumes "c \<noteq> CHR ''%''" and "c \<noteq> CHR ''_''" and "c \<noteq> CHR 0x5C"
  shows "toLowerCase_char c \<noteq> CHR ''%'' \<and> toLowerCase_char c \<noteq> CHR ''_'' \<and>
         toLowerCase_char c \<noteq> CHR 0x5C"
proof (cases "(65 \<le> (of_char c :: nat) \<and> (of_char c :: nat) \<le> 90) \<or>
         (192 \<le> (of_char c :: nat) \<and> (of_char c :: nat) \<le> 222 \<and> (of_char c :: nat) \<noteq> 215)")
  case False
  then have "toLowerCase_char c = c" by (auto simp: toLowerCase_char_def Let_def)
  with assms show ?thesis by simp
next
  case True
  have "(of_char (toLowerCase_char c) :: nat) = of_char c + 32"
    using True by (simp only: of_char_toLowerCase_char if_True)
  with True have n: "97 \<le> (of_char (toLowerCase_char c) :: nat)" by linarith
  have "toLowerCase_char c \<noteq> CHR ''%''"
  proof
    assume "toLowerCase_char c = CHR ''%''"
    then have "(of_char (toLowerCase_char c) :: nat) = 37" by simp
    with n show False by simp
  qed
  moreover have "toLowerCase_char c \<noteq> CHR ''_''"
  proof
    assume "toLowerCase_char c = CHR ''_''"
    then have "(of_char (toLowerCase_char c) :: nat) = 95" by simp
    with n show False by simp
  qed
  moreover have "toLowerCase_char c \<noteq> CHR 0x5C"
  proof
    assume "toLowerCase_char c = CHR 0x5C"
    then have "(of_char (toLowerCase_char c) :: nat) = 92" by simp
    with n show False by simp
  qed
  ultimately show ?thesis by simp
qed

lemma star_plain: "wildcard_free pat \<Longrightarrow> star pat = pat"
  by (induction pat) (simp_all add: star_def wildcard_free_def)

lemma toLowerCase_plain:
  "wildcard_free pat \<Longrightarrow>
   list_all (\<lambda>c. c \<noteq> CHR ''%'' \<and> c \<noteq> CHR ''_'' \<and> c \<noteq> CHR 0x5C) (toLowerCase pat)"
  by (induction pat) (simp_all add: wildcard_free_def toLowerCase_def toLowerCase_char_plain)

lemma ilike_plain:
  "wildcard_free pat \<Longrightarrow> ilike s pat \<longleftrightarrow> toLowerCase s = toLowerCase pat"
  by (simp add: ilike_def star_plain like_plain[OF toLowerCase_plain])

lemma related_iff:
  "related itemName p \<longleftrightarrow>
     (trim (toLowerCase (p_name p)) = trim (toLowerCase itemName) \<or>
      (\<exists>a b. toLowerCase (p_name p) = a @ toLowerCase itemName @ b) \<or>
      (\<exists>a b. toLowerCase itemName = a @ toLowerCase (p_name p) @ b))"
  by (simp add: related_def str_includes_iff)

text \<open>
  C2 (as amended). getMatch returns the first product of the catalog, in catalog order,
  whose name is related to the searched name: equal to it after lower-casing and
  trimming, or containing it, or contained in it (both lower-cased); a product equal to
  the searched name is not preferred to an earlier one that is only substring-related;
  it returns none when no product is related. The catalog search of updateStock is a
  different one and is not substring-tolerant: when some row's whole name matches the
  item's name as an \<open>ilike\<close> pattern it takes such a row (the one the store
  returns first), otherwise none; for a name without wildcard characters, matching
  means equality of the lower-cased names.
\<close>

theorem product_matching:
  "(getMatch ps nm = None \<longleftrightarrow>
      (\<forall>p \<in> set ps.
         \<not> (trim (toLowerCase (p_name p)) = trim (toLowerCase nm) \<or>
            (\<exists>a b. toLowerCase (p_name p) = a @ toLowerCase nm @ b) \<or>
            (\<exists>a b. toLowerCase nm = a @ toLowerCase (p_name p) @ b)))) \<and>
   (\<forall>p. getMatch ps nm = Some p \<longrightarrow>
      (\<exists>i < length ps. ps ! i = p \<and>
         (trim (toLowerCase (p_name p)) = trim (toLowerCase nm) \<or>
          (\<exists>a b. toLowerCase (p_name p) = a @ toLowerCase nm @ b) \<or>
          (\<exists>a b. toLowerCase nm = a @ toLowerCase (p_name p) @ b)) \<and>
         (\<forall>j < i.
            \<not> (trim (toLowerCase (p_name (ps ! j))) = trim (toLowerCase nm) \<or>
               (\<exists>a b. toLowerCase (p_name (ps ! j)) = a @ toLowerCase nm @ b) \<or>
               (\<exists>a b. toLowerCase nm = a @ toLowerCase (p_name (ps ! j)) @ b))))) \<and>
   (online st \<longrightarrow>
      (if \<exists>p \<in> set (products st). ilike (p_name p) nm
       then \<exists>e. find_existing nm st = Some e \<and> e \<in> set (products st) \<and> ilike (p_name e) nm
       else find_existing nm st = None)) \<and>
   (online st \<and> wildcard_free nm \<longrightarrow>
      (if \<exists>p \<in> set (products st). toLowerCase (p_name p) = toLowerCase nm
       then \<exists>e. find_existing nm st = Some e \<and> e \<in> set (products st) \<and>
                toLowerCase (p_name e) = toLowerCase nm
       else find_existing nm st = None))"
proof -
  have a: "getMatch ps nm = None \<longleftrightarrow>
      (\<forall>p \<in> set ps.
         \<not> (trim (toLowerCase (p_name p)) = trim (toLowerCase nm) \<or>
            (\<exists>a b. toLowerCase (p_name p) = a @ toLowerCase nm @ b) \<or>
            (\<exists>a b. toLowerCase nm = a @ toLowerCase (p_name p) @ b)))"
    unfolding getMatch_def find_None_iff related_iff by blast
  have b: "\<forall>p. getMatch ps nm = Some p \<longrightarrow>
      (\<exists>i < length ps. ps ! i = p \<and>
         (trim (toLowerCase (p_name p)) = trim (toLowerCase nm) \<or>
          (\<exists>a b. toLowerCase (p_name p) = a @ toLowerCase nm @ b) \<or>
          (\<exists>a b. toLowerCase nm = a @ toLowerCase (p_name p) @ b)) \<and>
         (\<forall>j < i.
            \<not> (trim (toLowerCase (p_name (ps ! j))) = trim (toLowerCase nm) \<or>
               (\<exists>a b. toLowerCase (p_name (ps ! j)) = a @ toLowerCase nm @ b) \<or>
               (\<exists>a b. toLowerCase nm = a @ toLowerCase (p_name (ps ! j)) @ b))))"
    unfolding getMatch_def find_Some_iff related_iff by blast
  have c: "online st \<longrightarrow>
      (if \<exists>p \<in> set (products st). ilike (p_name p) nm
       then \<exists>e. find_existing nm st = Some e \<and> e \<in> set (products st) \<and> ilike (p_name e) nm
       else find_existing nm st = None)"
    using find_existing_cases[of st nm] by blast
  have d: "online st \<and> wildcard_free nm \<longrightarrow>
      (if \<exists>p \<in> set (products st). toLowerCase (p_name p) = toLowerCase nm
       then \<exists>e. find_existing nm st = Some e \<and> e \<in> set (products st) \<and>
                toLowerCase (p_name e) = toLowerCase nm
       else find_existing nm st = None)"
  proof
    assume h: "online st \<and> wildcard_free nm"
    then have eq: "\<And>s. ilike s nm \<longleftrightarrow> toLowerCase s = toLowerCase nm"
      by (simp add: ilike_plain)
    from h have up: "online st" by (rule conjunct1)
    from find_existing_cases[OF up, of nm]
    show "if \<exists>p \<in> set (products st). toLowerCase (p_name p) = toLowerCase nm
       then \<exists>e. find_existing nm st = Some e \<and> e \<in> set (products st) \<and>
                toLowerCase (p_name e) = toLowerCase nm
       else find_existing nm st = None"
      by (simp only: eq)
  qed
  from a b c d show ?thesis by (intro conjI)
qed

text \<open>
  getMatch on the searched name "Harina Pan" returns "Harina Pan Integral", which comes
  first in the catalog and contains it; on "AZ\<open>U+00DA\<close>CAR" it returns
  "Az\<open>U+00FA\<close>car"; the search of updateStock for "harina pan" finds "Harina Pan".
\<close>

theorem product_matching_witness:
  "getMatch [ex_integral, ex_harina] ''Harina Pan'' = Some ex_integral \<and>
   getMatch [ex_azucar] (''AZ'' @ [CHR 0xDA] @ ''CAR'') = Some ex_azucar \<and>
   online ex_store \<and> wildcard_free ''harina pan'' \<and>
   (\<exists>i < length [ex_integral, ex_harina]. [ex_integral, ex_harina] ! i = ex_integral \<and>
      (trim (toLowerCase (p_name ex_integral)) = trim (toLowerCase ''Harina Pan'') \<or>
       (\<exists>a b. toLowerCase (p_name ex_integral) = a @ toLowerCase ''Harina Pan'' @ b) \<or>
       (\<exists>a b. toLowerCase ''Harina Pan'' = a @ toLowerCase (p_name ex_integral) @ b))) \<and>
   (\<exists>e. find_existing ''harina pan'' ex_store = Some e \<and> e \<in> set (products ex_store) \<and>
        toLowerCase (p_name e) = toLowerCase ''harina pan'') \<and>
   find_existing ''harina pan'' ex_store = Some ex_harina"
proof -
  have a: "getMatch [ex_integral, ex_harina] ''Harina Pan'' = Some ex_integral" by code_simp
  have a': "getMatch [ex_azucar] (''AZ'' @ [CHR 0xDA] @ ''CAR'') = Some ex_azucar" by code_simp
  have b: "online ex_store" by code_simp
  have c: "wildcard_free ''harina pan''" by code_simp
  have d: "\<exists>p \<in> set (products ex_store). toLowerCase (p_name p) = toLowerCase ''harina pan''"
    by code_simp
  note t = product_matching[of "[ex_integral, ex_harina]" "''Harina Pan''" ex_store]
  note u = product_matching[of "[]" "''harina pan''" ex_store]
  have e: "\<exists>i < length [ex_integral, ex_harina]. [ex_integral, ex_harina] ! i = ex_integral \<and>
      (trim (toLowerCase (p_name ex_integral)) = trim (toLowerCase ''Harina Pan'') \<or>
       (\<exists>a b. toLowerCase (p_name ex_integral) = a @ toLowerCase ''Harina Pan'' @ b) \<or>
       (\<exists>a b. toLowerCase ''Harina Pan'' = a @ toLowerCase (p_name ex_integral) @ b))"
    using t a by blast
  from u b c have "if \<exists>p \<in> set (products ex_store). toLowerCase (p_name p) = toLowerCase ''harina pan''
       then \<exists>e. find_existing ''harina pan'' ex_store = Some e \<and> e \<in> set (products ex_store) \<and>
                toLowerCase (p_name e) = toLowerCase ''harina pan''
       else find_existing ''harina pan'' ex_store = None"
    by blast
  then have f: "\<exists>e. find_existing ''harina pan'' ex_store = Some e \<and> e \<in> set (products ex_store) \<and>
                toLowerCase (p_name e) = toLowerCase ''harina pan''"
    by (simp only: d if_True)
  have g: "find_existing ''harina pan'' ex_store = Some ex_harina" by code_simp
  from a a' b c e f g show ?thesis by (intro conjI)
qed

text \<open>
  The claim as stated fails twice: with "Harina Pan Integral" before "Harina Pan" in the
  catalog, getMatch returns the former for the searched name "Harina Pan", although the
  latter equals it; and for the item name "Harina", which "Harina Pan" contains,
  getMatch finds the product while the search of updateStock finds none.
\<close>

theorem product_matching_no_precedence:
  "trim (toLowerCase (p_name ex_harina)) = trim (toLowerCase ''Harina Pan'') \<and>
   trim (toLowerCase (p_name ex_integral)) \<noteq> trim (toLowerCase ''Harina Pan'') \<and>
   getMatch [ex_integral, ex_harina] ''Harina Pan'' = Some ex_integral \<and>
   str_includes (toLowerCase (p_name ex_harina)) (toLowerCase ''Harina'') \<and>
   getMatch (products ex_store) ''Harina'' = Some ex_harina \<and>
   find_existing ''Harina'' ex_store = None"
  by code_simp

section \<open>The supplier registrar: properties\<close>

text \<open>
  With at most one matching record in the store the registrar does what it is meant
  to: it returns the matching record and creates nothing, or creates one record when
  there is none, and a second call with the same name and rif returns the same record
  and changes nothing.
\<close>

lemma addSupplier_one_match:
  assumes "online st" and "filter (supplier_matches name rif) (suppliers st) = [s]"
  shows "addSupplier name rif now st = (Inr s, st)"
  using assms by (simp add: addSupplier_def select_where_def)

lemma addSupplier_no_match:
  assumes "online st" and "filter (supplier_matches name rif) (suppliers st) = []"
  shows "addSupplier name rif now st =
           (Inr \<lparr>s_id = next_id st, s_name = name, s_rif = rif, s_firstSeen = now\<rparr>,
            st\<lparr>suppliers := suppliers st @
                   [\<lparr>s_id = next_id st, s_name = name, s_rif = rif, s_firstSeen = now\<rparr>],
               next_id := Suc (next_id st), writes := Suc (writes st)\<rparr>)"
  using assms by (simp add: addSupplier_def select_where_def Let_def)

lemma addSupplier_again:
  assumes "online st" and "length (filter (supplier_matches name rif) (suppliers st)) \<le> 1"
  shows "addSupplier name rif now' (snd (addSupplier name rif now st)) =
           (fst (addSupplier name rif now st), snd (addSupplier name rif now st))"
proof (cases "filter (supplier_matches name rif) (suppliers st)")
  case Nil
  let ?row = "\<lparr>s_id = next_id st, s_name = name, s_rif = rif, s_firstSeen = now\<rparr>"
  let ?st1 = "st\<lparr>suppliers := suppliers st @ [?row], next_id := Suc (next_id st),
                 writes := Suc (writes st)\<rparr>"
  have 1: "addSupplier name rif now st = (Inr ?row, ?st1)"
    using addSupplier_no_match[OF assms(1) Nil] .
  have "filter (supplier_matches name rif) (suppliers ?st1) = [?row]"
    using Nil by (simp add: supplier_matches_def)
  moreover have "online ?st1" using assms(1) by simp
  ultimately have "addSupplier name rif now' ?st1 = (Inr ?row, ?st1)"
    by (rule addSupplier_one_match[rotated])
  with 1 show ?thesis by simp
next
  case (Cons s rest)
  with assms(2) have "filter (supplier_matches name rif) (suppliers st) = [s]" by simp
  then have "\<And>t. addSupplier name rif t st = (Inr s, st)"
    using assms(1) by (simp add: addSupplier_one_match)
  then show ?thesis by simp
qed

text \<open>
  C5, where the code departs from it. \<open>.single()\<close> gives no data when more than one
  row matches, and the code then takes the supplier for unknown. Here "Polar" (rif
  "N/A") and "Plumrose" (rif "J-1") are on record, and a Plumrose invoice without a
  rif arrives: both records match ("N/A" by rif, "Plumrose" by name), none is
  returned, a third record is created, and the same call again creates a fourth, with
  another id.
\<close>

theorem addSupplier_duplicates_on_two_matches:
  "suppliers ex_two_suppliers =
     [\<lparr>s_id = 1, s_name = ''Polar'', s_rif = ''N/A'', s_firstSeen = ''2024-01-01''\<rparr>,
      \<lparr>s_id = 2, s_name = ''Plumrose'', s_rif = ''J-1'', s_firstSeen = ''2024-01-02''\<rparr>] \<and>
   filter (supplier_matches ''Plumrose'' ''N/A'') (suppliers ex_two_suppliers) =
     suppliers ex_two_suppliers \<and>
   fst (addSupplier ''Plumrose'' ''N/A'' ''2024-01-03'' ex_two_suppliers) =
     Inr \<lparr>s_id = 3, s_name = ''Plumrose'', s_rif = ''N/A'', s_firstSeen = ''2024-01-03''\<rparr> \<and>
   length (suppliers (snd (addSupplier ''Plumrose'' ''N/A'' ''2024-01-03'' ex_two_suppliers))) = 3 \<and>
   fst (addSupplier ''Plumrose'' ''N/A'' ''2024-01-04''
          (snd (addSupplier ''Plumrose'' ''N/A'' ''2024-01-03'' ex_two_suppliers))) =
     Inr \<lparr>s_id = 4, s_name = ''Plumrose'', s_rif = ''N/A'', s_firstSeen = ''2024-01-04''\<rparr> \<and>
   length (suppliers (snd (addSupplier ''Plumrose'' ''N/A'' ''2024-01-04''
          (snd (addSupplier ''Plumrose'' ''N/A'' ''2024-01-03'' ex_two_suppliers))))) = 4"
  by code_simp

section \<open>CSV bulk import: properties\<close>

text \<open>
  C6, where the code departs from it. importFromCSV reads the catalog once, before the
  loop (\<open>currentProducts\<close>), and matches every row against that catalog and takes
  the existing quantity and price from it, not from the store as the rows before have
  left it. With "Harina Pan" on record (quantity 5, price 2) and a file whose rows are
  "Harina Pan,1,9" and "harina pan,1,0": the first row sets quantity 6 and price 9; the
  second row matches the product as read before the loop and stores quantity 6 again
  (not 7) and the price 2 (not the 9 now on record); both rows are counted as updates.
  With an empty catalog and the rows "Arroz,3,1.50,0,Alimentos" and "arroz,4,1.50", the
  second row does not match the product the first row created: two products named
  "Arroz" and "arroz" are created. And the minStock field "0" of the first row, which
  parses to 0, is stored as 10 (\<open>parseInt(...) || 10\<close>).
\<close>

theorem importFromCSV_stale_catalog:
  "getAll ex_store = Inr [ex_harina] \<and>
   map r_name (csv_rows ex_csv_repeat) = [''Harina Pan'', ''harina pan''] \<and>
   map r_quantity (csv_rows ex_csv_repeat) = [1, 1] \<and>
   map r_price (csv_rows ex_csv_repeat) = [Num 9, Num 0] \<and>
   map p_quantity (products (fst (foldl (\<lambda>a row. import_row [ex_harina] ''2024-04-04'' row a)
      (ex_store, 0, 0) (take 1 (csv_rows ex_csv_repeat))))) = [6] \<and>
   map p_price (products (fst (foldl (\<lambda>a row. import_row [ex_harina] ''2024-04-04'' row a)
      (ex_store, 0, 0) (take 1 (csv_rows ex_csv_repeat))))) = [Num 9] \<and>
   products (snd (importFromCSV ex_csv_repeat ''2024-04-04'' ex_store)) =
     [ex_harina\<lparr>p_quantity := 6, p_price := Num 2, p_lastUpdated := ''2024-04-04''\<rparr>] \<and>
   fst (importFromCSV ex_csv_repeat ''2024-04-04'' ex_store) = Inr (0, 2) \<and>
   getAll ex_empty = Inr [] \<and>
   map r_name (csv_rows ex_csv_new_twice) = [''Arroz'', ''arroz''] \<and>
   map r_minStock (csv_rows ex_csv_new_twice) = [10, 10] \<and>
   parseInt ''0'' = Some 0 \<and>
   map p_name (products (snd (importFromCSV ex_csv_new_twice ''2024-04-04'' ex_empty))) =
     [''Arroz'', ''arroz''] \<and>
   map p_quantity (products (snd (importFromCSV ex_csv_new_twice ''2024-04-04'' ex_empty))) =
     [3, 4] \<and>
   map p_minStock (products (snd (importFromCSV ex_csv_new_twice ''2024-04-04'' ex_empty))) =
     [10, 10] \<and>
   fst (importFromCSV ex_csv_new_twice ''2024-04-04'' ex_empty) = Inr (2, 0)"
  by code_simp

end
